theory Spec2Isabelle
  imports Complex_Main
begin

section \<open>Configuration constants (game.py, lines 35-51)\<close>

text \<open>
  Python integers are modelled as \<open>int\<close>.  Python floats are modelled by the real numbers
  they denote; every statement below that involves a velocity is proved for all velocity
  values, so none of them depends on floating-point rounding.
\<close>

definition SCREEN_WIDTH :: int where "SCREEN_WIDTH = 960"
definition SCREEN_HEIGHT :: int where "SCREEN_HEIGHT = 540"
definition TILE_SIZE :: int where "TILE_SIZE = 32"
definition WORLD_WIDTH :: int where "WORLD_WIDTH = 100"
definition WORLD_HEIGHT :: int where "WORLD_HEIGHT = 60"
definition GRAVITY :: real where "GRAVITY = 6 / 10"
definition PLAYER_SPEED :: real where "PLAYER_SPEED = 4"
definition PLAYER_JUMP :: real where "PLAYER_JUMP = 12"
definition ENEMY_SPEED :: real where "ENEMY_SPEED = 15 / 10"
definition ENEMY_JUMP_CHANCE :: real where "ENEMY_JUMP_CHANCE = 1 / 100"
definition DAY_LENGTH :: int where "DAY_LENGTH = 60 * 20"
definition ENEMY_SPAWN_INTERVAL :: int where "ENEMY_SPAWN_INTERVAL = 4 * 60"
definition BOSS_SPAWN_ORE_COUNT :: int where "BOSS_SPAWN_ORE_COUNT = 10"

named_theorems config \<open>values of the configuration constants\<close>

lemmas config_values [config] =
  SCREEN_WIDTH_def SCREEN_HEIGHT_def TILE_SIZE_def WORLD_WIDTH_def WORLD_HEIGHT_def
  GRAVITY_def PLAYER_SPEED_def PLAYER_JUMP_def ENEMY_SPEED_def ENEMY_JUMP_CHANCE_def
  DAY_LENGTH_def ENEMY_SPAWN_INTERVAL_def BOSS_SPAWN_ORE_COUNT_def

section \<open>Python values: errors, list indexing, float truncation\<close>

datatype error = IndexError | UnboundLocalError

text \<open>
  \<open>xs[i]\<close> and \<open>xs[i] = v\<close> on a Python list: an index below zero counts from the end,
  and an index that is still outside the list raises \<open>IndexError\<close>.
\<close>

definition py_index :: "'a list \<Rightarrow> int \<Rightarrow> error + nat" where
  "py_index xs i =
     (if 0 \<le> i \<and> i < int (length xs) then Inr (nat i)
      else if i < 0 \<and> - int (length xs) \<le> i then Inr (nat (int (length xs) + i))
      else Inl IndexError)"

definition py_get :: "'a list \<Rightarrow> int \<Rightarrow> error + 'a" where
  "py_get xs i = (case py_index xs i of Inl e \<Rightarrow> Inl e | Inr k \<Rightarrow> Inr (xs ! k))"

definition py_set :: "'a list \<Rightarrow> int \<Rightarrow> 'a \<Rightarrow> error + 'a list" where
  "py_set xs i v = (case py_index xs i of Inl e \<Rightarrow> Inl e | Inr k \<Rightarrow> Inr (xs[k := v]))"

text \<open>\<open>int(v)\<close> on a float rounds toward zero.\<close>

definition py_int :: "real \<Rightarrow> int" where
  "py_int v = (if 0 \<le> v then \<lfloor>v\<rfloor> else \<lceil>v\<rceil>)"

section \<open>The tile grid\<close>

text \<open>
  The world is a list of rows, each a list of tile identifiers:
  0 air, 1 dirt, 2 grass, 3 stone, 4 ore, 5 wood.
\<close>

type_synonym world = "int list list"

text \<open>\<open>world[tile_y][tile_x]\<close>\<close>

definition tile_at :: "world \<Rightarrow> int \<Rightarrow> int \<Rightarrow> error + int" where
  "tile_at world tile_y tile_x =
     (case py_get world tile_y of Inl e \<Rightarrow> Inl e | Inr row \<Rightarrow> py_get row tile_x)"

text \<open>\<open>world[tile_y][tile_x] = v\<close>\<close>

definition set_tile :: "world \<Rightarrow> int \<Rightarrow> int \<Rightarrow> int \<Rightarrow> error + world" where
  "set_tile world tile_y tile_x v =
     (case py_get world tile_y of
        Inl e \<Rightarrow> Inl e
      | Inr row \<Rightarrow>
          (case py_set row tile_x v of
             Inl e \<Rightarrow> Inl e
           | Inr row' \<Rightarrow> py_set world tile_y row'))"

definition is_solid :: "int \<Rightarrow> bool" where
  "is_solid tile_id = (tile_id \<noteq> 0)"

text \<open>
  The grid the game runs on has \<open>WORLD_HEIGHT\<close> rows of \<open>WORLD_WIDTH\<close> tiles
  (\<open>generate_world(WORLD_WIDTH, WORLD_HEIGHT)\<close> in \<open>run_game\<close>), every tile one of the six
  identifiers.
\<close>

definition world_dims :: "world \<Rightarrow> bool" where
  "world_dims world =
     (int (length world) = WORLD_HEIGHT \<and> list_all (\<lambda>row. int (length row) = WORLD_WIDTH) world)"

definition valid_tiles :: "world \<Rightarrow> bool" where
  "valid_tiles world = list_all (list_all (\<lambda>t. 0 \<le> t \<and> t \<le> 5)) world"

section \<open>Rectangles (pygame.Rect with integer coordinates)\<close>

text \<open>
  A \<open>pygame.Rect\<close> holds the integers x, y, w, h; the other attributes are computed from
  them, and assigning to one of them moves the rectangle without resizing it.  The
  coordinates are modelled as unbounded integers.
\<close>

record rect =
  rect_x :: int
  rect_y :: int
  rect_w :: int
  rect_h :: int

definition left :: "rect \<Rightarrow> int" where "left r = rect_x r"
definition top :: "rect \<Rightarrow> int" where "top r = rect_y r"
definition right :: "rect \<Rightarrow> int" where "right r = rect_x r + rect_w r"
definition bottom :: "rect \<Rightarrow> int" where "bottom r = rect_y r + rect_h r"
definition centerx :: "rect \<Rightarrow> int" where "centerx r = rect_x r + rect_w r div 2"
definition centery :: "rect \<Rightarrow> int" where "centery r = rect_y r + rect_h r div 2"

definition set_left :: "rect \<Rightarrow> int \<Rightarrow> rect" where "set_left r v = r\<lparr>rect_x := v\<rparr>"
definition set_top :: "rect \<Rightarrow> int \<Rightarrow> rect" where "set_top r v = r\<lparr>rect_y := v\<rparr>"
definition set_right :: "rect \<Rightarrow> int \<Rightarrow> rect" where "set_right r v = r\<lparr>rect_x := v - rect_w r\<rparr>"
definition set_bottom :: "rect \<Rightarrow> int \<Rightarrow> rect" where "set_bottom r v = r\<lparr>rect_y := v - rect_h r\<rparr>"
definition set_centerx :: "rect \<Rightarrow> int \<Rightarrow> rect" where
  "set_centerx r v = r\<lparr>rect_x := v - rect_w r div 2\<rparr>"

text \<open>
  \<open>a.colliderect(b)\<close>, as pygame computes it: rectangles of zero width or height collide
  with nothing, and rectangles that only touch along an edge do not collide.
\<close>

definition colliderect :: "rect \<Rightarrow> rect \<Rightarrow> bool" where
  "colliderect a b =
     (if rect_w a = 0 \<or> rect_h a = 0 \<or> rect_w b = 0 \<or> rect_h b = 0 then False
      else min (rect_x a) (rect_x a + rect_w a) < max (rect_x b) (rect_x b + rect_w b)
         \<and> min (rect_y a) (rect_y a + rect_h a) < max (rect_y b) (rect_y b + rect_h b)
         \<and> max (rect_x a) (rect_x a + rect_w a) > min (rect_x b) (rect_x b + rect_w b)
         \<and> max (rect_y a) (rect_y a + rect_h a) > min (rect_y b) (rect_y b + rect_h b))"

section \<open>Bodies: the fields shared by Player, Enemy and Boss\<close>

record body =
  rect :: rect
  vel_x :: real
  vel_y :: real
  on_ground :: bool
  health :: int
  hurt_cooldown :: int

datatype item = Dirt | Stone | Ore | Wood

text \<open>
  The player's inventory is a dictionary with exactly the keys 'dirt', 'stone', 'ore' and
  'wood' (\<open>Player.__init__\<close>, lines 143-148); no key is ever added or removed, so it is a
  total function on \<open>item\<close>.
\<close>

record player = body +
  inventory :: "item \<Rightarrow> int"
  selected :: item

type_synonym enemy = body
type_synonym boss = body

section \<open>Collision resolution (\<open>_resolve_collisions\<close>)\<close>

text \<open>The four sampled corners, in the order of the source (lines 194-199).\<close>

definition corners :: "rect \<Rightarrow> (int \<times> int) list" where
  "corners r =
     [(left r, top r), (right r - 1, top r), (left r, bottom r - 1), (right r - 1, bottom r - 1)]"

text \<open>The body of \<open>if is_solid(tile):\<close> (lines 206-220).\<close>

definition snap :: "real \<Rightarrow> real \<Rightarrow> int \<Rightarrow> int \<Rightarrow> 'a body_scheme \<Rightarrow> 'a body_scheme" where
  "snap dx dy tile_x tile_y b =
     (let b1 =
            (if dy > 0 then
               b\<lparr>rect := set_bottom (rect b) (tile_y * TILE_SIZE), vel_y := 0, on_ground := True\<rparr>
             else if dy < 0 then
               b\<lparr>rect := set_top (rect b) ((tile_y + 1) * TILE_SIZE), vel_y := 0\<rparr>
             else b)
      in if dx > 0 then b1\<lparr>rect := set_right (rect b1) (tile_x * TILE_SIZE)\<rparr>
         else if dx < 0 then b1\<lparr>rect := set_left (rect b1) ((tile_x + 1) * TILE_SIZE)\<rparr>
         else b1)"

text \<open>One iteration of \<open>for corner_x, corner_y in corners:\<close> (lines 200-205).\<close>

definition in_world :: "int \<Rightarrow> int \<Rightarrow> bool" where
  "in_world tile_x tile_y =
     (0 \<le> tile_x \<and> tile_x < WORLD_WIDTH \<and> 0 \<le> tile_y \<and> tile_y < WORLD_HEIGHT)"

definition resolve_corner ::
  "world \<Rightarrow> real \<Rightarrow> real \<Rightarrow> 'a body_scheme \<Rightarrow> int \<times> int \<Rightarrow> error + 'a body_scheme" where
  "resolve_corner world dx dy b c =
     (let tile_x = fst c div TILE_SIZE; tile_y = snd c div TILE_SIZE
      in if in_world tile_x tile_y then
           (case tile_at world tile_y tile_x of
              Inl e \<Rightarrow> Inl e
            | Inr tile \<Rightarrow> if is_solid tile then Inr (snap dx dy tile_x tile_y b) else Inr b)
         else Inr b)"

fun resolve_loop ::
  "world \<Rightarrow> real \<Rightarrow> real \<Rightarrow> 'a body_scheme \<Rightarrow> (int \<times> int) list \<Rightarrow> error + 'a body_scheme" where
  "resolve_loop world dx dy b [] = Inr b"
| "resolve_loop world dx dy b (c # cs) =
     (case resolve_corner world dx dy b c of
        Inl e \<Rightarrow> Inl e
      | Inr b' \<Rightarrow> resolve_loop world dx dy b' cs)"

text \<open>\<open>Player._resolve_collisions\<close> (lines 191-220): the corner list is built once, from the
  rectangle at the time of the call.\<close>

definition Player_resolve_collisions :: "world \<Rightarrow> player \<Rightarrow> real \<Rightarrow> real \<Rightarrow> error + player" where
  "Player_resolve_collisions world p dx dy = resolve_loop world dx dy p (corners (rect p))"

text \<open>"Keep within world bounds" (lines 345-349 and 420-424).\<close>

definition keep_within_bounds :: "'a body_scheme \<Rightarrow> 'a body_scheme" where
  "keep_within_bounds b =
     (let b1 = (if left (rect b) < 0 then b\<lparr>rect := set_left (rect b) 0\<rparr> else b)
      in if right (rect b1) > WORLD_WIDTH * TILE_SIZE
         then b1\<lparr>rect := set_right (rect b1) (WORLD_WIDTH * TILE_SIZE)\<rparr> else b1)"

text \<open>\<open>Enemy._resolve_collisions\<close> (lines 320-349).\<close>

definition Enemy_resolve_collisions :: "world \<Rightarrow> enemy \<Rightarrow> real \<Rightarrow> real \<Rightarrow> error + enemy" where
  "Enemy_resolve_collisions world e dx dy =
     (case resolve_loop world dx dy e (corners (rect e)) of
        Inl err \<Rightarrow> Inl err
      | Inr e' \<Rightarrow> Inr (keep_within_bounds e'))"

text \<open>\<open>Boss._resolve_collisions\<close> (lines 396-424).\<close>

definition Boss_resolve_collisions :: "world \<Rightarrow> boss \<Rightarrow> real \<Rightarrow> real \<Rightarrow> error + boss" where
  "Boss_resolve_collisions world b dx dy =
     (case resolve_loop world dx dy b (corners (rect b)) of
        Inl err \<Rightarrow> Inl err
      | Inr b' \<Rightarrow> Inr (keep_within_bounds b'))"

text \<open>A corner hits when its tile lies in the world and is solid (the two conditions of
  lines 203 and 205).\<close>

definition corner_hits :: "world \<Rightarrow> int \<times> int \<Rightarrow> bool" where
  "corner_hits world c =
     (let tile_x = fst c div TILE_SIZE; tile_y = snd c div TILE_SIZE
      in in_world tile_x tile_y \<and>
         (case tile_at world tile_y tile_x of Inl e \<Rightarrow> False | Inr tile \<Rightarrow> is_solid tile))"

section \<open>Player\<close>

text \<open>
  Sprites are positioned by \<open>rect.centerx = x; rect.bottom = y\<close> on the image's rectangle,
  which starts at the origin with the image's size.
\<close>

definition sprite_rect :: "int \<Rightarrow> int \<Rightarrow> int \<Rightarrow> int \<Rightarrow> rect" where
  "sprite_rect width height x y =
     set_bottom (set_centerx \<lparr>rect_x = 0, rect_y = 0, rect_w = width, rect_h = height\<rparr> x) y"

text \<open>\<open>Player.__init__\<close> (lines 130-152); the player image is scaled to
  \<open>(TILE_SIZE, int(TILE_SIZE * 1.5))\<close> (line 531).\<close>

definition Player_init :: "int \<Rightarrow> int \<Rightarrow> player" where
  "Player_init x y =
     \<lparr>rect = sprite_rect TILE_SIZE (py_int (real_of_int TILE_SIZE * 1.5)) x y,
      vel_x = 0, vel_y = 0, on_ground = False, health = 100, hurt_cooldown = 0,
      inventory = (\<lambda>_. 0), selected = Dirt\<rparr>"

text \<open>The keys \<open>handle_input\<close> looks at, as \<open>pygame.key.get_pressed()\<close> reports them.\<close>

record keys =
  K_a :: bool
  K_LEFT :: bool
  K_d :: bool
  K_RIGHT :: bool
  K_w :: bool
  K_UP :: bool
  K_SPACE :: bool
  K_1 :: bool
  K_2 :: bool
  K_3 :: bool
  K_4 :: bool

text \<open>\<open>Player.handle_input\<close> (lines 154-173).\<close>

definition Player_handle_input :: "keys \<Rightarrow> player \<Rightarrow> player" where
  "Player_handle_input ks p =
     (let p = p\<lparr>vel_x := 0\<rparr>;
          p = (if K_a ks \<or> K_LEFT ks then p\<lparr>vel_x := - PLAYER_SPEED\<rparr> else p);
          p = (if K_d ks \<or> K_RIGHT ks then p\<lparr>vel_x := PLAYER_SPEED\<rparr> else p);
          p = (if (K_w ks \<or> K_UP ks \<or> K_SPACE ks) \<and> on_ground p
               then p\<lparr>vel_y := - PLAYER_JUMP, on_ground := False\<rparr> else p);
          p = (if K_1 ks then p\<lparr>selected := Dirt\<rparr> else p);
          p = (if K_2 ks then p\<lparr>selected := Stone\<rparr> else p);
          p = (if K_3 ks then p\<lparr>selected := Ore\<rparr> else p)
      in if K_4 ks then p\<lparr>selected := Wood\<rparr> else p)"

text \<open>\<open>rect.x += int(v)\<close> and \<open>rect.y += int(v)\<close>.\<close>

definition move_x :: "real \<Rightarrow> 'a body_scheme \<Rightarrow> 'a body_scheme" where
  "move_x v b = b\<lparr>rect := (rect b)\<lparr>rect_x := rect_x (rect b) + py_int v\<rparr>\<rparr>"

definition move_y :: "real \<Rightarrow> 'a body_scheme \<Rightarrow> 'a body_scheme" where
  "move_y v b = b\<lparr>rect := (rect b)\<lparr>rect_y := rect_y (rect b) + py_int v\<rparr>\<rparr>"

text \<open>"Hurt cooldown timer" (lines 187-189, 316-318, 393-394).\<close>

definition cooldown_tick :: "'a body_scheme \<Rightarrow> 'a body_scheme" where
  "cooldown_tick b = (if hurt_cooldown b > 0 then b\<lparr>hurt_cooldown := hurt_cooldown b - 1\<rparr> else b)"

text \<open>
  \<open>Player.update\<close> (lines 175-189), in two halves: everything up to the call of the
  vertical collision pass (gravity, the horizontal move and its pass, the vertical move,
  \<open>on_ground = False\<close>), and the vertical pass with the cooldown timer.
\<close>

definition Player_before_vertical :: "world \<Rightarrow> player \<Rightarrow> error + player" where
  "Player_before_vertical world p =
     (let p = p\<lparr>vel_y := vel_y p + GRAVITY\<rparr>;
          p = move_x (vel_x p) p
      in case Player_resolve_collisions world p (vel_x p) 0 of
           Inl e \<Rightarrow> Inl e
         | Inr p \<Rightarrow> Inr ((move_y (vel_y p) p)\<lparr>on_ground := False\<rparr>))"

definition Player_update :: "world \<Rightarrow> player \<Rightarrow> error + player" where
  "Player_update world p =
     (case Player_before_vertical world p of
        Inl e \<Rightarrow> Inl e
      | Inr p \<Rightarrow>
          (case Player_resolve_collisions world p 0 (vel_y p) of
             Inl e \<Rightarrow> Inl e
           | Inr p \<Rightarrow> Inr (cooldown_tick p)))"

text \<open>\<open>self.inventory[k] += n\<close>\<close>

definition add_item :: "item \<Rightarrow> int \<Rightarrow> player \<Rightarrow> player" where
  "add_item k n p = p\<lparr>inventory := (inventory p)(k := inventory p k + n)\<rparr>"

text \<open>The tile under the mouse cursor (lines 225-227 and 256-258).\<close>

definition target_tile :: "int \<times> int \<Rightarrow> int \<times> int \<Rightarrow> int \<times> int" where
  "target_tile camera mouse_pos =
     ((fst mouse_pos + fst camera) div TILE_SIZE, (snd mouse_pos + snd camera) div TILE_SIZE)"

text \<open>\<open>Player.mine_block\<close> (lines 222-249).  It returns the grid and the player as it
  leaves them.\<close>

definition Player_mine_block ::
  "world \<Rightarrow> player \<Rightarrow> int \<times> int \<Rightarrow> int \<times> int \<Rightarrow> error + world \<times> player" where
  "Player_mine_block world p camera mouse_pos =
     (let world_x = fst (target_tile camera mouse_pos);
          world_y = snd (target_tile camera mouse_pos);
          px = centerx (rect p) div TILE_SIZE;
          py = centery (rect p) div TILE_SIZE
      in if \<bar>world_x - px\<bar> > 4 \<or> \<bar>world_y - py\<bar> > 4 then Inr (world, p)
         else if in_world world_x world_y then
           (case tile_at world world_y world_x of
              Inl e \<Rightarrow> Inl e
            | Inr tile \<Rightarrow>
                if tile \<noteq> 0 \<and> world_y < WORLD_HEIGHT - 1 then
                  (let p' = (if tile = 1 then add_item Dirt 1 p
                             else if tile = 2 then add_item Dirt 1 p
                             else if tile = 3 then add_item Stone 1 p
                             else if tile = 4 then add_item Ore 1 p
                             else if tile = 5 then add_item Wood 1 p
                             else p)
                   in case set_tile world world_y world_x 0 of
                        Inl e \<Rightarrow> Inl e
                      | Inr world' \<Rightarrow> Inr (world', p'))
                else Inr (world, p))
         else Inr (world, p))"

text \<open>The inventory key a mined tile is counted under (the chain of lines 238-247); a tile
  identifier other than 1 to 5 is counted nowhere.\<close>

definition mined_item :: "int \<Rightarrow> item option" where
  "mined_item tile =
     (if tile = 1 \<or> tile = 2 then Some Dirt else if tile = 3 then Some Stone
      else if tile = 4 then Some Ore else if tile = 5 then Some Wood else None)"

text \<open>"Map item key to tile id" (lines 266-274).\<close>

definition tile_of_item :: "item \<Rightarrow> int" where
  "tile_of_item k = (case k of Dirt \<Rightarrow> 1 | Stone \<Rightarrow> 3 | Ore \<Rightarrow> 4 | Wood \<Rightarrow> 5)"

text \<open>\<open>pygame.Rect(world_x * TILE_SIZE, world_y * TILE_SIZE, TILE_SIZE, TILE_SIZE)\<close>\<close>

definition tile_rect :: "int \<Rightarrow> int \<Rightarrow> rect" where
  "tile_rect world_x world_y =
     \<lparr>rect_x = world_x * TILE_SIZE, rect_y = world_y * TILE_SIZE,
      rect_w = TILE_SIZE, rect_h = TILE_SIZE\<rparr>"

text \<open>\<open>Player.place_block\<close> (lines 251-276).\<close>

definition Player_place_block ::
  "world \<Rightarrow> player \<Rightarrow> int \<times> int \<Rightarrow> int \<times> int \<Rightarrow> error + world \<times> player" where
  "Player_place_block world p camera mouse_pos =
     (if inventory p (selected p) \<le> 0 then Inr (world, p)
      else
        (let world_x = fst (target_tile camera mouse_pos);
             world_y = snd (target_tile camera mouse_pos)
         in if in_world world_x world_y then
              (case tile_at world world_y world_x of
                 Inl e \<Rightarrow> Inl e
               | Inr tile \<Rightarrow>
                   if tile = 0 then
                     (if \<not> colliderect (rect p) (tile_rect world_x world_y) then
                        (case set_tile world world_y world_x (tile_of_item (selected p)) of
                           Inl e \<Rightarrow> Inl e
                         | Inr world' \<Rightarrow> Inr (world', add_item (selected p) (- 1) p))
                      else Inr (world, p))
                   else Inr (world, p))
            else Inr (world, p)))"

section \<open>Terrain generation\<close>

text \<open>
  \<open>generate_world\<close> (lines 81-117).  The random source is a parameter: \<open>choice x\<close> is
  the value \<open>random.choice([-1, 0, 1])\<close> returns for column \<open>x\<close>, and \<open>ore x y\<close> tells
  whether \<open>random.random() < 0.05\<close> holds for the tile at column \<open>x\<close>, row \<open>y\<close>.  Every
  column draws once from the former and every deep tile once from the latter.
\<close>

text \<open>The inner loop \<open>for y in range(current_height, height)\<close>, from row \<open>y\<close> on.\<close>

function column_loop ::
  "(int \<Rightarrow> bool) \<Rightarrow> int \<Rightarrow> int \<Rightarrow> int \<Rightarrow> int \<Rightarrow> world \<Rightarrow> error + world" where
  "column_loop ore_x current_height height x y world =
     (if y < height then
        (case set_tile world y x
                (if y = current_height then 2
                 else if y < current_height + 5 then 1
                 else if ore_x y then 4 else 3) of
           Inl e \<Rightarrow> Inl e
         | Inr world' \<Rightarrow> column_loop ore_x current_height height x (y + 1) world')
      else Inr world)"
  by pat_completeness auto
termination
  by (relation "measure (\<lambda>(ore_x, current_height, height, x, y, world). nat (height - y))") auto

text \<open>The outer loop \<open>for x in range(width)\<close>, from column \<open>x\<close> on.\<close>

function columns_loop ::
  "(int \<Rightarrow> int) \<Rightarrow> (int \<Rightarrow> int \<Rightarrow> bool) \<Rightarrow> int \<Rightarrow> int \<Rightarrow> int \<Rightarrow> int \<Rightarrow> world
     \<Rightarrow> error + world" where
  "columns_loop choice ore width height x current_height world =
     (if x < width then
        (let base = height div 2;
             current_height = current_height + choice x;
             current_height = max (base - 4) (min (base + 4) current_height)
         in case column_loop (ore x) current_height height x current_height world of
              Inl e \<Rightarrow> Inl e
            | Inr world' \<Rightarrow> columns_loop choice ore width height (x + 1) current_height world')
      else Inr world)"
  by pat_completeness auto
termination
  by (relation "measure (\<lambda>(choice, ore, width, height, x, current_height, world). nat (width - x))")
    auto

definition generate_world ::
  "int \<Rightarrow> int \<Rightarrow> (int \<Rightarrow> int) \<Rightarrow> (int \<Rightarrow> int \<Rightarrow> bool) \<Rightarrow> error + world" where
  "generate_world width height choice ore =
     (let world = replicate (nat height) (replicate (nat width) 0);
          base = height div 2
      in columns_loop choice ore width height 0 base world)"

text \<open>The tile written at row \<open>y\<close> of a column whose surface row is \<open>current_height\<close>
  (lines 108-116).\<close>

definition tile_for :: "(int \<Rightarrow> bool) \<Rightarrow> int \<Rightarrow> int \<Rightarrow> int" where
  "tile_for ore_x current_height y =
     (if y = current_height then 2 else if y < current_height + 5 then 1
      else if ore_x y then 4 else 3)"

text \<open>A grid of \<open>height\<close> rows of \<open>width\<close> tiles.\<close>

definition rectangular :: "world \<Rightarrow> int \<Rightarrow> int \<Rightarrow> bool" where
  "rectangular grid height width =
     (int (length grid) = height \<and> list_all (\<lambda>row. int (length row) = width) grid)"

text \<open>
  Column \<open>x\<close> of a grid has its surface at row \<open>s\<close>: reading the column from the top row
  to the bottom row, every tile above row \<open>s\<close> is air, the tile at row \<open>s\<close> is grass, the
  four tiles below it are dirt, they all lie in the grid, and every tile further down is stone
  or ore.
\<close>

definition layered_column :: "world \<Rightarrow> int \<Rightarrow> int \<Rightarrow> int \<Rightarrow> bool" where
  "layered_column grid height x s =
     (0 \<le> s \<and> s + 4 < height \<and>
      list_all
        (\<lambda>y. case tile_at grid y x of
               Inl e \<Rightarrow> False
             | Inr t \<Rightarrow> if y < s then t = 0 else if y = s then t = 2
                        else if y \<le> s + 4 then t = 1 else t = 3 \<or> t = 4)
        [0..height - 1])"

section \<open>Enemy and Boss\<close>

text \<open>\<open>Enemy.__init__\<close> (lines 284-295); \<open>v\<close> is the value of
  \<open>random.choice([-ENEMY_SPEED, ENEMY_SPEED])\<close>.  The enemy image has the player's size
  (line 532).\<close>

definition Enemy_init :: "int \<Rightarrow> int \<Rightarrow> real \<Rightarrow> enemy" where
  "Enemy_init x y v =
     \<lparr>rect = sprite_rect TILE_SIZE (py_int (real_of_int TILE_SIZE * 1.5)) x y,
      vel_x = v, vel_y = 0, on_ground = False, health = 30, hurt_cooldown = 0\<rparr>"

text \<open>\<open>Enemy.update\<close> (lines 297-318); \<open>draw\<close> is the value \<open>random.random()\<close> returns
  when the enemy is on the ground (it is not called otherwise).\<close>

definition Enemy_before_vertical :: "world \<Rightarrow> player \<Rightarrow> enemy \<Rightarrow> real \<Rightarrow> error + enemy" where
  "Enemy_before_vertical world p e draw =
     (let e = (if centerx (rect p) < centerx (rect e) then e\<lparr>vel_x := - ENEMY_SPEED\<rparr>
               else e\<lparr>vel_x := ENEMY_SPEED\<rparr>);
          e = (if on_ground e \<and> draw < ENEMY_JUMP_CHANCE
               then e\<lparr>vel_y := - PLAYER_JUMP * 0.8, on_ground := False\<rparr> else e);
          e = e\<lparr>vel_y := vel_y e + GRAVITY\<rparr>;
          e = move_x (vel_x e) e
      in case Enemy_resolve_collisions world e (vel_x e) 0 of
           Inl err \<Rightarrow> Inl err
         | Inr e \<Rightarrow> Inr ((move_y (vel_y e) e)\<lparr>on_ground := False\<rparr>))"

definition Enemy_update :: "world \<Rightarrow> player \<Rightarrow> enemy \<Rightarrow> real \<Rightarrow> error + enemy" where
  "Enemy_update world p e draw =
     (case Enemy_before_vertical world p e draw of
        Inl err \<Rightarrow> Inl err
      | Inr e \<Rightarrow>
          (case Enemy_resolve_collisions world e 0 (vel_y e) of
             Inl err \<Rightarrow> Inl err
           | Inr e \<Rightarrow> Inr (cooldown_tick e)))"

text \<open>\<open>Boss.__init__\<close> (lines 359-373): the image is scaled to
  \<open>TILE_SIZE * factor * 2\<close> on each side, with \<open>factor = 2\<close>.\<close>

definition Boss_init :: "int \<Rightarrow> int \<Rightarrow> boss" where
  "Boss_init x y =
     \<lparr>rect = sprite_rect (TILE_SIZE * 2 * 2) (TILE_SIZE * 2 * 2) x y,
      vel_x = ENEMY_SPEED * 1.5, vel_y = 0, on_ground = False, health = 250, hurt_cooldown = 0\<rparr>"

text \<open>\<open>Boss.update\<close> (lines 375-394).\<close>

definition Boss_before_vertical :: "world \<Rightarrow> player \<Rightarrow> boss \<Rightarrow> real \<Rightarrow> error + boss" where
  "Boss_before_vertical world p b draw =
     (let b = (if centerx (rect p) < centerx (rect b) then b\<lparr>vel_x := - \<bar>vel_x b\<bar>\<rparr>
               else b\<lparr>vel_x := \<bar>vel_x b\<bar>\<rparr>);
          b = (if on_ground b \<and> draw < 0.02
               then b\<lparr>vel_y := - PLAYER_JUMP, on_ground := False\<rparr> else b);
          b = b\<lparr>vel_y := vel_y b + GRAVITY\<rparr>;
          b = move_x (vel_x b) b
      in case Boss_resolve_collisions world b (vel_x b) 0 of
           Inl err \<Rightarrow> Inl err
         | Inr b \<Rightarrow> Inr ((move_y (vel_y b) b)\<lparr>on_ground := False\<rparr>))"

definition Boss_update :: "world \<Rightarrow> player \<Rightarrow> boss \<Rightarrow> real \<Rightarrow> error + boss" where
  "Boss_update world p b draw =
     (case Boss_before_vertical world p b draw of
        Inl err \<Rightarrow> Inl err
      | Inr b \<Rightarrow>
          (case Boss_resolve_collisions world b 0 (vel_y b) of
             Inl err \<Rightarrow> Inl err
           | Inr b \<Rightarrow> Inr (cooldown_tick b)))"

section \<open>The main loop (\<open>run_game\<close>)\<close>

text \<open>
  The local variables of \<open>run_game\<close> that are state, with the prefix \<open>g_\<close>.  The
  variables \<open>camera_x, camera_y\<close> and \<open>spawn_y\<close> are not bound before their first
  assignment inside the loop, so they are optional here; \<open>boss\<close> starts as \<open>None\<close>.
  The enemy group is the list of its sprites in insertion order.
\<close>

record game =
  g_world :: world
  g_player :: player
  g_camera :: "(int \<times> int) option"
  g_enemies :: "enemy list"
  g_enemy_spawn_timer :: int
  g_spawn_y :: "int option"
  g_boss :: "boss option"
  g_boss_spawned :: bool
  g_boss_defeated :: bool
  g_time_of_day :: int
  g_day_count :: int
  g_story_timer :: int
  g_show_story :: bool
  g_running :: bool

text \<open>
  What one frame receives from outside: the pygame events, the pressed keys, and the values
  the random source returns where the frame asks for them (\<open>random.randint(0, WORLD_WIDTH - 1)\<close>,
  the \<open>random.choice\<close> of \<open>Enemy.__init__\<close>, the \<open>random.random()\<close> of the update of
  the \<open>i\<close>-th enemy and of the boss).
\<close>

datatype event = QUIT | MOUSEBUTTONDOWN int "int \<times> int" | OtherEvent

record frame_input =
  events :: "event list"
  pressed :: keys
  rand_spawn_x :: int
  rand_enemy_vel :: real
  rand_enemy_jump :: "nat \<Rightarrow> real"
  rand_boss_jump :: real

text \<open>"Find ground": \<open>for y in range(WORLD_HEIGHT): if world[y][col] != 0: ... break\<close>
  (lines 542-545, 620-623, 635-638), over the rows still to visit.\<close>

fun first_solid_row :: "world \<Rightarrow> int \<Rightarrow> int list \<Rightarrow> error + int option" where
  "first_solid_row world col [] = Inr None"
| "first_solid_row world col (y # ys) =
     (case tile_at world y col of
        Inl e \<Rightarrow> Inl e
      | Inr tile \<Rightarrow> if tile \<noteq> 0 then Inr (Some y) else first_solid_row world col ys)"

text \<open>Before the loop (lines 536-565).\<close>

definition run_game_init :: "(int \<Rightarrow> int) \<Rightarrow> (int \<Rightarrow> int \<Rightarrow> bool) \<Rightarrow> error + game" where
  "run_game_init choice ore =
     (case generate_world WORLD_WIDTH WORLD_HEIGHT choice ore of
        Inl e \<Rightarrow> Inl e
      | Inr world \<Rightarrow>
          (case first_solid_row world 5 [0..WORLD_HEIGHT - 1] of
             Inl e \<Rightarrow> Inl e
           | Inr found \<Rightarrow>
               (let ground_y = (case found of None \<Rightarrow> 0 | Some y \<Rightarrow> y)
                in Inr \<lparr>g_world = world,
                        g_player = Player_init (5 * TILE_SIZE) (ground_y * TILE_SIZE),
                        g_camera = None, g_enemies = [], g_enemy_spawn_timer = 0,
                        g_spawn_y = None, g_boss = None, g_boss_spawned = False,
                        g_boss_defeated = False, g_time_of_day = 0, g_day_count = 0,
                        g_story_timer = 600, g_show_story = True, g_running = True\<rparr>)))"

text \<open>The event loop (lines 569-577).\<close>

definition handle_event :: "event \<Rightarrow> game \<Rightarrow> error + game" where
  "handle_event ev g =
     (case ev of
        QUIT \<Rightarrow> Inr (g\<lparr>g_running := False\<rparr>)
      | MOUSEBUTTONDOWN button pos \<Rightarrow>
          if button = 1 then
            (case g_camera g of
               None \<Rightarrow> Inl UnboundLocalError
             | Some cam \<Rightarrow>
                 (case Player_mine_block (g_world g) (g_player g) cam pos of
                    Inl e \<Rightarrow> Inl e
                  | Inr (w, p) \<Rightarrow> Inr (g\<lparr>g_world := w, g_player := p\<rparr>)))
          else if button = 3 then
            (case g_camera g of
               None \<Rightarrow> Inl UnboundLocalError
             | Some cam \<Rightarrow>
                 (case Player_place_block (g_world g) (g_player g) cam pos of
                    Inl e \<Rightarrow> Inl e
                  | Inr (w, p) \<Rightarrow> Inr (g\<lparr>g_world := w, g_player := p\<rparr>)))
          else Inr g
      | OtherEvent \<Rightarrow> Inr g)"

fun handle_events :: "event list \<Rightarrow> game \<Rightarrow> error + game" where
  "handle_events [] g = Inr g"
| "handle_events (ev # evs) g =
     (case handle_event ev g of Inl e \<Rightarrow> Inl e | Inr g' \<Rightarrow> handle_events evs g')"

text \<open>Keyboard input, the player's update and the camera (lines 580-589).\<close>

definition player_phase :: "keys \<Rightarrow> game \<Rightarrow> error + game" where
  "player_phase ks g =
     (case Player_update (g_world g) (Player_handle_input ks (g_player g)) of
        Inl e \<Rightarrow> Inl e
      | Inr p \<Rightarrow>
          (let camera_x = centerx (rect p) - SCREEN_WIDTH div 2;
               camera_y = centery (rect p) - SCREEN_HEIGHT div 2;
               camera_x = max 0 (min camera_x (WORLD_WIDTH * TILE_SIZE - SCREEN_WIDTH));
               camera_y = max 0 (min camera_y (WORLD_HEIGHT * TILE_SIZE - SCREEN_HEIGHT))
           in Inr (g\<lparr>g_player := p, g_camera := Some (camera_x, camera_y)\<rparr>)))"

text \<open>The day/night counter (lines 592-595).\<close>

definition clock_phase :: "game \<Rightarrow> game" where
  "clock_phase g =
     (let g = g\<lparr>g_time_of_day := g_time_of_day g + 1\<rparr>
      in if g_time_of_day g \<ge> DAY_LENGTH
         then g\<lparr>g_time_of_day := 0, g_day_count := g_day_count g + 1\<rparr> else g)"

text \<open>Lines 597-599 and 610.\<close>

definition brightness :: "int \<Rightarrow> real" where
  "brightness time_of_day =
     (let t = real_of_int time_of_day / real_of_int DAY_LENGTH
      in 0.5 + 0.5 * (1 - \<bar>0.5 - t\<bar> * 2))"

definition is_night :: "real \<Rightarrow> bool" where
  "is_night b = (b < 0.5)"

text \<open>"Enemy spawning at night" (lines 609-626).\<close>

definition enemy_spawn_phase :: "frame_input \<Rightarrow> game \<Rightarrow> error + game" where
  "enemy_spawn_phase inp g =
     (if is_night (brightness (g_time_of_day g)) \<and> \<not> g_boss_defeated g then
        (let g = g\<lparr>g_enemy_spawn_timer := g_enemy_spawn_timer g + 1\<rparr>
         in if g_enemy_spawn_timer g \<ge> ENEMY_SPAWN_INTERVAL then
              (let g = g\<lparr>g_enemy_spawn_timer := 0\<rparr>;
                   spawn_x = rand_spawn_x inp
               in if \<bar>spawn_x - centerx (rect (g_player g)) div TILE_SIZE\<bar> > 10 then
                    (case first_solid_row (g_world g) spawn_x [0..WORLD_HEIGHT - 1] of
                       Inl e \<Rightarrow> Inl e
                     | Inr found \<Rightarrow>
                         (let g = (case found of None \<Rightarrow> g | Some y \<Rightarrow> g\<lparr>g_spawn_y := Some y\<rparr>)
                          in case g_spawn_y g of
                               None \<Rightarrow> Inl UnboundLocalError
                             | Some spawn_y \<Rightarrow>
                                 Inr (g\<lparr>g_enemies := g_enemies g @
                                          [Enemy_init (spawn_x * TILE_SIZE) (spawn_y * TILE_SIZE)
                                             (rand_enemy_vel inp)]\<rparr>)))
                  else Inr g)
            else Inr g)
      else Inr g)"

text \<open>"Spawn boss if conditions met" (lines 628-642).\<close>

definition boss_spawn_phase :: "game \<Rightarrow> error + game" where
  "boss_spawn_phase g =
     (if \<not> g_boss_spawned g \<and> inventory (g_player g) Ore \<ge> BOSS_SPAWN_ORE_COUNT then
        (let bx = centerx (rect (g_player g));
             gx = bx div TILE_SIZE
         in case first_solid_row (g_world g) gx [0..WORLD_HEIGHT - 1] of
              Inl e \<Rightarrow> Inl e
            | Inr found \<Rightarrow>
                (let gy = (case found of None \<Rightarrow> 0 | Some y \<Rightarrow> y)
                 in Inr (g\<lparr>g_boss := Some (Boss_init bx (gy * TILE_SIZE)),
                           g_boss_spawned := True, g_show_story := True,
                           g_story_timer := 600\<rparr>)))
      else Inr g)"

text \<open>"Damage player on collision" (lines 648-656 for an enemy, 665-672 for the boss):
  \<open>damage\<close> and \<open>push\<close> are 10 and 2 for an enemy, 20 and 4 for the boss.\<close>

definition contact :: "int \<Rightarrow> real \<Rightarrow> body \<Rightarrow> player \<Rightarrow> player" where
  "contact damage push e p =
     (if colliderect (rect e) (rect p) then
        (if hurt_cooldown p = 0 then
           (let p = p\<lparr>health := health p - damage, hurt_cooldown := 60\<rparr>
            in if centerx (rect e) < centerx (rect p) then p\<lparr>vel_x := vel_x p + push\<rparr>
               else p\<lparr>vel_x := vel_x p - push\<rparr>)
         else p)
      else p)"

text \<open>"Update enemies" (lines 644-659): the loop runs over a copy of the group, and an
  enemy that has fallen off the world or died is removed from the group.\<close>

fun enemies_loop ::
  "world \<Rightarrow> (nat \<Rightarrow> real) \<Rightarrow> nat \<Rightarrow> player \<Rightarrow> enemy list \<Rightarrow> error + player \<times> enemy list" where
  "enemies_loop world draw i p [] = Inr (p, [])"
| "enemies_loop world draw i p (e # es) =
     (case Enemy_update world p e (draw i) of
        Inl err \<Rightarrow> Inl err
      | Inr e' \<Rightarrow>
          (case enemies_loop world draw (Suc i) (contact 10 2 e' p) es of
             Inl err \<Rightarrow> Inl err
           | Inr (p', es') \<Rightarrow>
               Inr (p', if top (rect e') > WORLD_HEIGHT * TILE_SIZE \<or> health e' \<le> 0
                        then es' else e' # es')))"

definition enemies_phase :: "frame_input \<Rightarrow> game \<Rightarrow> error + game" where
  "enemies_phase inp g =
     (case enemies_loop (g_world g) (rand_enemy_jump inp) 0 (g_player g) (g_enemies g) of
        Inl err \<Rightarrow> Inl err
      | Inr (p, es) \<Rightarrow> Inr (g\<lparr>g_player := p, g_enemies := es\<rparr>))"

text \<open>"Update boss" (lines 661-677).\<close>

definition boss_phase :: "frame_input \<Rightarrow> game \<Rightarrow> error + game" where
  "boss_phase inp g =
     (case g_boss g of
        None \<Rightarrow> Inr g
      | Some b \<Rightarrow>
          if \<not> g_boss_defeated g then
            (case Boss_update (g_world g) (g_player g) b (rand_boss_jump inp) of
               Inl err \<Rightarrow> Inl err
             | Inr b' \<Rightarrow>
                 (let g = g\<lparr>g_boss := Some b', g_player := contact 20 4 b' (g_player g)\<rparr>
                  in if health b' \<le> 0
                     then Inr (g\<lparr>g_boss_defeated := True, g_show_story := True,
                                 g_story_timer := 600\<rparr>)
                     else Inr g))
          else Inr g)"

text \<open>"Check for game over" (lines 679-681) and the story timer (lines 698-701); drawing
  changes no state.\<close>

definition game_over_phase :: "game \<Rightarrow> game" where
  "game_over_phase g = (if health (g_player g) \<le> 0 then g\<lparr>g_running := False\<rparr> else g)"

definition story_phase :: "game \<Rightarrow> game" where
  "story_phase g =
     (if g_show_story g then
        (let g = g\<lparr>g_story_timer := g_story_timer g - 1\<rparr>
         in if g_story_timer g \<le> 0 then g\<lparr>g_show_story := False\<rparr> else g)
      else g)"

text \<open>One iteration of \<open>while running:\<close> (lines 566-713).\<close>

definition frame :: "frame_input \<Rightarrow> game \<Rightarrow> error + game" where
  "frame inp g =
     (case handle_events (events inp) g of Inl e \<Rightarrow> Inl e | Inr g \<Rightarrow>
      case player_phase (pressed inp) g of Inl e \<Rightarrow> Inl e | Inr g \<Rightarrow>
      case enemy_spawn_phase inp (clock_phase g) of Inl e \<Rightarrow> Inl e | Inr g \<Rightarrow>
      case boss_spawn_phase g of Inl e \<Rightarrow> Inl e | Inr g \<Rightarrow>
      case enemies_phase inp g of Inl e \<Rightarrow> Inl e | Inr g \<Rightarrow>
      case boss_phase inp g of Inl e \<Rightarrow> Inl e | Inr g \<Rightarrow>
      Inr (story_phase (game_over_phase g)))"

text \<open>
  The loop, for the frames whose inputs are given: the list of the states in which the
  condition of \<open>while running:\<close> is evaluated.  It ends when \<open>running\<close> is false, when a
  frame raises, or with the last input.
\<close>

fun run_game_loop :: "frame_input list \<Rightarrow> game \<Rightarrow> game list" where
  "run_game_loop [] g = [g]"
| "run_game_loop (inp # inps) g =
     g # (if g_running g
          then (case frame inp g of Inl e \<Rightarrow> [] | Inr g' \<Rightarrow> run_game_loop inps g')
          else [])"

text \<open>The boss is updated and drawn \<open>if boss and not boss_defeated\<close> (lines 662, 691).\<close>

definition active_bosses :: "game \<Rightarrow> nat" where
  "active_bosses g = (if g_boss g \<noteq> None \<and> \<not> g_boss_defeated g then 1 else 0)"

text \<open>
  Along the list of states of a run: the number of frames in which the boss is created (the
  only assignment of a \<open>Boss\<close> to \<open>boss\<close> is the one that sets \<open>boss_spawned\<close>, lines
  639-640, so these are the frames in which the flag goes from false to true), and the number
  of frames in which the number of active bosses goes from 0 to 1.
\<close>

fun boss_creations :: "game list \<Rightarrow> nat" where
  "boss_creations (g # g' # gs) =
     (if \<not> g_boss_spawned g \<and> g_boss_spawned g' then 1 else 0) + boss_creations (g' # gs)"
| "boss_creations gs = 0"

fun boss_activations :: "game list \<Rightarrow> nat" where
  "boss_activations (g # g' # gs) =
     (if active_bosses g = 0 \<and> active_bosses g' = 1 then 1 else 0) + boss_activations (g' # gs)"
| "boss_activations gs = 0"

text \<open>The three variables of the loop that concern the boss.\<close>

definition boss_flags :: "game \<Rightarrow> boss option \<times> bool \<times> bool" where
  "boss_flags g = (g_boss g, g_boss_spawned g, g_boss_defeated g)"

section \<open>Example inputs\<close>

text \<open>A world of air only, and a world whose rows from 30 downward are stone.\<close>

definition air_world :: world where
  "air_world = replicate 60 (replicate 100 0)"

definition flat_world :: world where
  "flat_world = replicate 30 (replicate 100 0) @ replicate 30 (replicate 100 3)"

text \<open>A player, an enemy and a boss two pixels above the stone of \<open>flat_world\<close>, falling.\<close>

definition falling_player :: player where
  "falling_player = (Player_init 160 958)\<lparr>vel_y := 4.4\<rparr>"

definition falling_enemy :: enemy where
  "falling_enemy = (Enemy_init 480 958 1.5)\<lparr>vel_y := 4.4\<rparr>"

definition falling_boss :: boss where
  "falling_boss = (Boss_init 1600 958)\<lparr>vel_y := 4.4\<rparr>"

text \<open>A player standing on the stone of \<open>flat_world\<close> in column 5 with an empty inventory,
  the same player holding one stone with stone selected, and \<open>flat_world\<close> with the tile at
  column 6, row 30 mined.\<close>

definition standing_player :: player where
  "standing_player = Player_init 160 960"

definition stocked_player :: player where
  "stocked_player = standing_player\<lparr>inventory := (\<lambda>_. 0)(Stone := 1), selected := Stone\<rparr>"

definition mined_world :: world where
  "mined_world = flat_world[30 := (flat_world ! 30)[6 := 0]]"

text \<open>An enemy overlapping the standing player, and the standing player during its hurt
  cooldown.\<close>

definition close_enemy :: enemy where
  "close_enemy = Enemy_init 170 960 1.5"

definition hurt_player :: player where
  "hurt_player = standing_player\<lparr>hurt_cooldown := 5\<rparr>"

text \<open>A game whose player holds ten ore, a frame without events or pressed keys, and the
  state that frame leads to: the boss has spawned and has hit the player.\<close>

definition ore_player :: player where
  "ore_player = standing_player\<lparr>inventory := (\<lambda>_. 0)(Ore := 10)\<rparr>"

definition no_keys :: keys where
  "no_keys = \<lparr>K_a = False, K_LEFT = False, K_d = False, K_RIGHT = False, K_w = False,
     K_UP = False, K_SPACE = False, K_1 = False, K_2 = False, K_3 = False, K_4 = False\<rparr>"

definition quiet_input :: frame_input where
  "quiet_input = \<lparr>events = [], pressed = no_keys, rand_spawn_x = 50, rand_enemy_vel = 1.5,
     rand_enemy_jump = (\<lambda>_. 1), rand_boss_jump = 1\<rparr>"

definition ready_game :: game where
  "ready_game = \<lparr>g_world = flat_world, g_player = ore_player, g_camera = None, g_enemies = [],
     g_enemy_spawn_timer = 0, g_spawn_y = None, g_boss = None, g_boss_spawned = False,
     g_boss_defeated = False, g_time_of_day = 0, g_day_count = 0, g_story_timer = 600,
     g_show_story = True, g_running = True\<rparr>"

definition spawned_game :: game where
  "spawned_game = ready_game
     \<lparr>g_player := ore_player\<lparr>vel_x := - 4, vel_y := 0.6, health := 80, hurt_cooldown := 60\<rparr>,
      g_camera := Some (0, 666),
      g_boss := Some ((Boss_init 160 960)
                 \<lparr>rect := \<lparr>rect_x = 98, rect_y = 832, rect_w = 128, rect_h = 128\<rparr>,
                  vel_x := 2.25, vel_y := 0.6\<rparr>),
      g_boss_spawned := True, g_time_of_day := 1, g_story_timer := 599\<rparr>"

text \<open>The world of 4 columns and 16 rows whose surface goes down by one row per column.\<close>

definition steep_world :: world where
  "steep_world =
     replicate 9 [0, 0, 0, 0] @
     [[2, 0, 0, 0], [1, 2, 0, 0], [1, 1, 2, 0], [1, 1, 1, 2], [1, 1, 1, 1], [3, 1, 1, 1],
      [3, 3, 1, 1]]"

section \<open>Basic facts about grid reads and collision resolution\<close>

lemma snap_zero: "snap 0 0 tx ty b = b"
  by (simp add: snap_def)

lemma resolve_corner_zero: "resolve_corner world 0 0 b c = Inr b' \<Longrightarrow> b' = b"
  by (auto simp: resolve_corner_def snap_zero Let_def split: if_splits sum.splits)

lemma resolve_loop_zero: "resolve_loop world 0 0 b cs = Inr b' \<Longrightarrow> b' = b"
proof (induction cs arbitrary: b)
  case Nil then show ?case by simp
next
  case (Cons c cs)
  then show ?case by (auto split: sum.splits dest: resolve_corner_zero)
qed

lemma py_get_in_range:
  "0 \<le> i \<Longrightarrow> i < int (length xs) \<Longrightarrow> py_get xs i = Inr (xs ! nat i)"
  by (simp add: py_get_def py_index_def)

lemma tile_at_in_world:
  assumes "world_dims world" "in_world tile_x tile_y"
  shows "tile_at world tile_y tile_x = Inr (world ! nat tile_y ! nat tile_x)"
proof -
  from assms have y: "0 \<le> tile_y" "tile_y < int (length world)"
    by (simp_all add: world_dims_def in_world_def)
  then have "world ! nat tile_y \<in> set world" by simp
  with assms have "int (length (world ! nat tile_y)) = WORLD_WIDTH"
    by (simp add: world_dims_def list_all_iff)
  with assms have x: "0 \<le> tile_x" "tile_x < int (length (world ! nat tile_y))"
    by (simp_all add: in_world_def)
  show ?thesis
    by (simp add: tile_at_def py_get_in_range y x)
qed

lemma resolve_corner_total:
  "world_dims world \<Longrightarrow> \<exists>b'. resolve_corner world dx dy b c = Inr b'"
  by (simp add: resolve_corner_def Let_def tile_at_in_world)

lemma resolve_loop_total:
  "world_dims world \<Longrightarrow> \<exists>b'. resolve_loop world dx dy b cs = Inr b'"
proof (induction cs arbitrary: b)
  case Nil then show ?case by simp
next
  case (Cons c cs)
  from resolve_corner_total [OF Cons.prems, of dx dy b c]
  obtain b1 where "resolve_corner world dx dy b c = Inr b1" by blast
  with Cons.IH [OF Cons.prems, of b1] show ?case by simp
qed

lemma resolve_loop_zero_total:
  "world_dims world \<Longrightarrow> resolve_loop world 0 0 b cs = Inr b"
  using resolve_loop_total [of world 0 0 b cs] resolve_loop_zero [of world b cs] by auto

lemma keep_within_bounds_inside:
  "0 \<le> left (rect b) \<Longrightarrow> right (rect b) \<le> WORLD_WIDTH * TILE_SIZE \<Longrightarrow> keep_within_bounds b = b"
  by (simp add: keep_within_bounds_def)

lemma resolve_corner_outside:
  "\<not> in_world (fst c div TILE_SIZE) (snd c div TILE_SIZE) \<Longrightarrow> resolve_corner world dx dy b c = Inr b"
  by (simp add: resolve_corner_def Let_def)

lemma resolve_loop_outside:
  "list_all (\<lambda>c. \<not> in_world (fst c div TILE_SIZE) (snd c div TILE_SIZE)) cs \<Longrightarrow>
   resolve_loop world dx dy b cs = Inr b"
  by (induction cs arbitrary: b) (simp_all add: resolve_corner_outside)

lemma resolve_corner_cong:
  "(\<And>tx ty. in_world tx ty \<Longrightarrow> tile_at w ty tx = tile_at w' ty tx) \<Longrightarrow>
   resolve_corner w dx dy b c = resolve_corner w' dx dy b c"
  by (simp add: resolve_corner_def Let_def)

lemma resolve_loop_cong:
  assumes "\<And>tx ty. in_world tx ty \<Longrightarrow> tile_at w ty tx = tile_at w' ty tx"
  shows "resolve_loop w dx dy b cs = resolve_loop w' dx dy b cs"
proof (induction cs arbitrary: b)
  case Nil then show ?case by simp
next
  case (Cons c cs)
  then show ?case using resolve_corner_cong [of w w' dx dy b c, OF assms]
    by (simp split: sum.splits)
qed

section \<open>The example worlds\<close>

lemma world_dims_air: "world_dims air_world"
  by (simp add: world_dims_def air_world_def config list_all_iff)

lemma world_dims_flat: "world_dims flat_world"
  by (auto simp add: world_dims_def flat_world_def config list_all_iff)

lemma tile_at_air:
  assumes "in_world tx ty"
  shows "tile_at air_world ty tx = Inr 0"
proof -
  from assms have "nat ty < 60" "nat tx < 100"
    by (auto simp add: in_world_def config)
  then have "air_world ! nat ty ! nat tx = 0"
    by (simp add: air_world_def)
  then show ?thesis
    by (simp add: tile_at_in_world [OF world_dims_air assms])
qed

lemma tile_at_flat:
  assumes "in_world tx ty"
  shows "tile_at flat_world ty tx = Inr (if ty < 30 then 0 else 3)"
proof -
  from assms have "nat ty < 60" "nat tx < 100" "0 \<le> ty"
    by (auto simp add: in_world_def config)
  then have "flat_world ! nat ty ! nat tx = (if ty < 30 then 0 else 3)"
    by (auto simp add: flat_world_def nth_append)
  then show ?thesis
    by (simp add: tile_at_in_world [OF world_dims_flat assms])
qed

lemmas rect_ops = left_def right_def top_def bottom_def centerx_def centery_def
  set_left_def set_right_def set_top_def set_bottom_def set_centerx_def

lemma corner_hits_flat:
  "corner_hits flat_world c =
     (in_world (fst c div TILE_SIZE) (snd c div TILE_SIZE) \<and> 30 \<le> snd c div TILE_SIZE)"
  by (auto simp add: corner_hits_def Let_def tile_at_flat is_solid_def split: if_splits)

lemma resolve_corner_flat:
  "resolve_corner flat_world dx dy b c =
     Inr (if corner_hits flat_world c
          then snap dx dy (fst c div TILE_SIZE) (snd c div TILE_SIZE) b else b)"
  by (auto simp add: resolve_corner_def corner_hits_def Let_def tile_at_flat is_solid_def)

lemma tile_at_extended:
  assumes "world_dims w" "in_world tx ty"
  shows "tile_at (w @ rows) ty tx = tile_at w ty tx"
proof -
  from assms have "0 \<le> ty" "ty < int (length w)" "nat ty < length w"
    by (auto simp add: world_dims_def in_world_def)
  then show ?thesis
    by (simp add: tile_at_def py_get_def py_index_def nth_append)
qed

section \<open>Landing on a solid tile\<close>

lemma resolve_corner_hits:
  "resolve_corner world dx dy b c = Inr b' \<Longrightarrow>
   b' = (if corner_hits world c then snap dx dy (fst c div TILE_SIZE) (snd c div TILE_SIZE) b else b)"
  by (auto simp add: resolve_corner_def corner_hits_def Let_def split: if_splits sum.splits)

lemma snap_falling:
  "dy > 0 \<Longrightarrow> snap 0 dy tx ty b =
     b\<lparr>rect := set_bottom (rect b) (ty * TILE_SIZE), vel_y := 0, on_ground := True\<rparr>"
  by (simp add: snap_def)

lemma bottom_set_bottom: "bottom (set_bottom r v) = v"
  by (simp add: bottom_def set_bottom_def)

lemma resolve_loop_falling:
  assumes "dy > 0"
  shows "resolve_loop world 0 dy b cs = Inr b' \<Longrightarrow>
     (\<not> (\<exists>c\<in>set cs. corner_hits world c) \<and> b' = b)
     \<or> (on_ground b' \<and> vel_y b' = 0 \<and>
        (\<exists>c\<in>set cs. corner_hits world c \<and> bottom (rect b') = (snd c div TILE_SIZE) * TILE_SIZE))"
proof (induction cs arbitrary: b)
  case Nil
  then show ?case by simp
next
  case (Cons c cs)
  from Cons.prems obtain b1 where
    step: "resolve_corner world 0 dy b c = Inr b1" and rest: "resolve_loop world 0 dy b1 cs = Inr b'"
    by (auto split: sum.splits)
  note b1 = resolve_corner_hits [OF step]
  from Cons.IH [OF rest] show ?case
  proof
    assume same: "\<not> (\<exists>c\<in>set cs. corner_hits world c) \<and> b' = b1"
    show ?thesis
    proof (cases "corner_hits world c")
      case True
      with b1 same assms show ?thesis
        by (simp add: snap_falling bottom_set_bottom)
    next
      case False
      with b1 same show ?thesis by simp
    qed
  next
    assume "on_ground b' \<and> vel_y b' = 0 \<and>
        (\<exists>c\<in>set cs. corner_hits world c \<and> bottom (rect b') = (snd c div TILE_SIZE) * TILE_SIZE)"
    then show ?thesis by auto
  qed
qed

lemma cooldown_tick_fields [simp]:
  "rect (cooldown_tick b) = rect b" "vel_y (cooldown_tick b) = vel_y b"
  "on_ground (cooldown_tick b) = on_ground b" "health (cooldown_tick b) = health b"
  "vel_x (cooldown_tick b) = vel_x b"
  by (simp_all add: cooldown_tick_def)

lemma keep_within_bounds_fields [simp]:
  "bottom (rect (keep_within_bounds b)) = bottom (rect b)"
  "vel_y (keep_within_bounds b) = vel_y b"
  "on_ground (keep_within_bounds b) = on_ground b"
  by (simp_all add: keep_within_bounds_def Let_def bottom_def set_left_def set_right_def)

lemma landing:
  assumes "world_dims world" "dy > 0" "\<exists>c\<in>set cs. corner_hits world c"
  shows "\<exists>b'. resolve_loop world 0 dy b cs = Inr b' \<and> on_ground b' \<and> vel_y b' = 0 \<and>
        (\<exists>c\<in>set cs. corner_hits world c \<and> bottom (rect b') = (snd c div TILE_SIZE) * TILE_SIZE)"
proof -
  from resolve_loop_total [OF assms(1)] obtain b' where r: "resolve_loop world 0 dy b cs = Inr b'"
    by blast
  from resolve_loop_falling [OF assms(2) r] assms(3) r show ?thesis by blast
qed

lemma falling_player_before:
  "Player_before_vertical flat_world falling_player =
     Inr (falling_player\<lparr>rect := \<lparr>rect_x = 144, rect_y = 915, rect_w = 32, rect_h = 48\<rparr>,
            vel_y := 5\<rparr>)"
  by (simp add: Player_before_vertical_def falling_player_def Player_init_def sprite_rect_def
      move_x_def move_y_def Player_resolve_collisions_def resolve_loop_zero_total world_dims_flat
      rect_ops py_int_def config)

lemma falling_enemy_before:
  "Enemy_before_vertical flat_world falling_player falling_enemy draw =
     Inr (falling_enemy\<lparr>rect := \<lparr>rect_x = 463, rect_y = 915, rect_w = 32, rect_h = 48\<rparr>,
            vel_x := - 1.5, vel_y := 5\<rparr>)"
  by (simp add: Enemy_before_vertical_def falling_player_def falling_enemy_def Player_init_def
      Enemy_init_def sprite_rect_def move_x_def move_y_def Enemy_resolve_collisions_def
      keep_within_bounds_def corners_def resolve_corner_flat corner_hits_flat in_world_def
      rect_ops py_int_def config)

lemma falling_boss_before:
  "Boss_before_vertical flat_world falling_player falling_boss draw =
     Inr (falling_boss\<lparr>rect := \<lparr>rect_x = 1534, rect_y = 835, rect_w = 128, rect_h = 128\<rparr>,
            vel_x := - 2.25, vel_y := 5\<rparr>)"
  by (simp add: Boss_before_vertical_def falling_player_def falling_boss_def Player_init_def
      Boss_init_def sprite_rect_def move_x_def move_y_def Boss_resolve_collisions_def
      keep_within_bounds_def corners_def resolve_corner_flat corner_hits_flat in_world_def
      rect_ops py_int_def config)

text \<open>
  Claim C7.  When the vertical collision pass of an update resolves downward motion
  (\<open>dy > 0\<close>) against a solid tile, that is, when some corner of the rectangle the pass
  starts from lies in a solid tile of the world, the update ends with \<open>on_ground\<close> true,
  \<open>vel_y = 0\<close> and the bottom edge of the rectangle exactly on the top edge
  \<open>tile_y * TILE_SIZE\<close> of a tile that a corner collided with.  This holds for the
  player, for an enemy and for the boss, on every grid of the world's dimensions.
\<close>

theorem falling_body_lands_on_tile:
  assumes "world_dims world"
  shows
   "(Player_before_vertical world p = Inr p1 \<and> vel_y p1 > 0
       \<and> (\<exists>c\<in>set (corners (rect p1)). corner_hits world c)
     \<longrightarrow> (\<exists>p'. Player_update world p = Inr p' \<and> on_ground p' \<and> vel_y p' = 0 \<and>
            (\<exists>c\<in>set (corners (rect p1)). corner_hits world c \<and>
               bottom (rect p') = (snd c div TILE_SIZE) * TILE_SIZE)))
    \<and> (Enemy_before_vertical world p e draw = Inr e1 \<and> vel_y e1 > 0
       \<and> (\<exists>c\<in>set (corners (rect e1)). corner_hits world c)
     \<longrightarrow> (\<exists>e'. Enemy_update world p e draw = Inr e' \<and> on_ground e' \<and> vel_y e' = 0 \<and>
            (\<exists>c\<in>set (corners (rect e1)). corner_hits world c \<and>
               bottom (rect e') = (snd c div TILE_SIZE) * TILE_SIZE)))
    \<and> (Boss_before_vertical world p b draw = Inr b1 \<and> vel_y b1 > 0
       \<and> (\<exists>c\<in>set (corners (rect b1)). corner_hits world c)
     \<longrightarrow> (\<exists>b'. Boss_update world p b draw = Inr b' \<and> on_ground b' \<and> vel_y b' = 0 \<and>
            (\<exists>c\<in>set (corners (rect b1)). corner_hits world c \<and>
               bottom (rect b') = (snd c div TILE_SIZE) * TILE_SIZE)))"
proof (intro conjI impI)
  assume h: "Player_before_vertical world p = Inr p1 \<and> vel_y p1 > 0
       \<and> (\<exists>c\<in>set (corners (rect p1)). corner_hits world c)"
  with landing [OF assms, of "vel_y p1" "corners (rect p1)" p1]
  obtain p2 where r: "resolve_loop world 0 (vel_y p1) p1 (corners (rect p1)) = Inr p2"
    and g: "on_ground p2" "vel_y p2 = 0"
    and c: "\<exists>c\<in>set (corners (rect p1)). corner_hits world c \<and>
               bottom (rect p2) = (snd c div TILE_SIZE) * TILE_SIZE"
    by blast
  from h r have "Player_update world p = Inr (cooldown_tick p2)"
    by (simp add: Player_update_def Player_resolve_collisions_def)
  with g c show "\<exists>p'. Player_update world p = Inr p' \<and> on_ground p' \<and> vel_y p' = 0 \<and>
            (\<exists>c\<in>set (corners (rect p1)). corner_hits world c \<and>
               bottom (rect p') = (snd c div TILE_SIZE) * TILE_SIZE)"
    by simp
next
  assume h: "Enemy_before_vertical world p e draw = Inr e1 \<and> vel_y e1 > 0
       \<and> (\<exists>c\<in>set (corners (rect e1)). corner_hits world c)"
  with landing [OF assms, of "vel_y e1" "corners (rect e1)" e1]
  obtain e2 where r: "resolve_loop world 0 (vel_y e1) e1 (corners (rect e1)) = Inr e2"
    and g: "on_ground e2" "vel_y e2 = 0"
    and c: "\<exists>c\<in>set (corners (rect e1)). corner_hits world c \<and>
               bottom (rect e2) = (snd c div TILE_SIZE) * TILE_SIZE"
    by blast
  from h r have "Enemy_update world p e draw = Inr (cooldown_tick (keep_within_bounds e2))"
    by (simp add: Enemy_update_def Enemy_resolve_collisions_def)
  with g c show "\<exists>e'. Enemy_update world p e draw = Inr e' \<and> on_ground e' \<and> vel_y e' = 0 \<and>
            (\<exists>c\<in>set (corners (rect e1)). corner_hits world c \<and>
               bottom (rect e') = (snd c div TILE_SIZE) * TILE_SIZE)"
    by simp
next
  assume h: "Boss_before_vertical world p b draw = Inr b1 \<and> vel_y b1 > 0
       \<and> (\<exists>c\<in>set (corners (rect b1)). corner_hits world c)"
  with landing [OF assms, of "vel_y b1" "corners (rect b1)" b1]
  obtain b2 where r: "resolve_loop world 0 (vel_y b1) b1 (corners (rect b1)) = Inr b2"
    and g: "on_ground b2" "vel_y b2 = 0"
    and c: "\<exists>c\<in>set (corners (rect b1)). corner_hits world c \<and>
               bottom (rect b2) = (snd c div TILE_SIZE) * TILE_SIZE"
    by blast
  from h r have "Boss_update world p b draw = Inr (cooldown_tick (keep_within_bounds b2))"
    by (simp add: Boss_update_def Boss_resolve_collisions_def)
  with g c show "\<exists>b'. Boss_update world p b draw = Inr b' \<and> on_ground b' \<and> vel_y b' = 0 \<and>
            (\<exists>c\<in>set (corners (rect b1)). corner_hits world c \<and>
               bottom (rect b') = (snd c div TILE_SIZE) * TILE_SIZE)"
    by simp
qed

text \<open>The three bodies of the examples, falling onto the stone of \<open>flat_world\<close>, land with
  their bottom edge at 960, the top edge of row 30.\<close>

theorem falling_body_lands_on_tile_witness:
  "world_dims flat_world
   \<and> Player_before_vertical flat_world falling_player =
         Inr (falling_player\<lparr>rect := \<lparr>rect_x = 144, rect_y = 915, rect_w = 32, rect_h = 48\<rparr>,
                vel_y := 5\<rparr>)
   \<and> corner_hits flat_world (144, 962)
   \<and> (\<exists>p'. Player_update flat_world falling_player = Inr p' \<and> on_ground p' \<and> vel_y p' = 0
          \<and> bottom (rect p') = 960)
   \<and> Enemy_before_vertical flat_world falling_player falling_enemy 0 =
         Inr (falling_enemy\<lparr>rect := \<lparr>rect_x = 463, rect_y = 915, rect_w = 32, rect_h = 48\<rparr>,
                vel_x := - 1.5, vel_y := 5\<rparr>)
   \<and> corner_hits flat_world (463, 962)
   \<and> (\<exists>e'. Enemy_update flat_world falling_player falling_enemy 0 = Inr e' \<and> on_ground e'
          \<and> vel_y e' = 0 \<and> bottom (rect e') = 960)
   \<and> Boss_before_vertical flat_world falling_player falling_boss 0 =
         Inr (falling_boss\<lparr>rect := \<lparr>rect_x = 1534, rect_y = 835, rect_w = 128, rect_h = 128\<rparr>,
                vel_x := - 2.25, vel_y := 5\<rparr>)
   \<and> corner_hits flat_world (1534, 962)
   \<and> (\<exists>b'. Boss_update flat_world falling_player falling_boss 0 = Inr b' \<and> on_ground b'
          \<and> vel_y b' = 0 \<and> bottom (rect b') = 960)"
proof -
  have hp: "corner_hits flat_world (144, 962)" and he: "corner_hits flat_world (463, 962)"
    and hb: "corner_hits flat_world (1534, 962)"
    by (simp_all add: corner_hits_flat in_world_def config)
  note inst = falling_body_lands_on_tile [OF world_dims_flat, where p = falling_player and e = falling_enemy
      and b = falling_boss and draw = 0
      and ?p1.0 = "falling_player\<lparr>rect := \<lparr>rect_x = 144, rect_y = 915, rect_w = 32, rect_h = 48\<rparr>,
                vel_y := 5\<rparr>"
      and ?e1.0 = "falling_enemy\<lparr>rect := \<lparr>rect_x = 463, rect_y = 915, rect_w = 32, rect_h = 48\<rparr>,
                vel_x := - 1.5, vel_y := 5\<rparr>"
      and ?b1.0 = "falling_boss\<lparr>rect := \<lparr>rect_x = 1534, rect_y = 835, rect_w = 128, rect_h = 128\<rparr>,
                vel_x := - 2.25, vel_y := 5\<rparr>"]
  from inst hp he hb show ?thesis
    apply (simp only: falling_player_before falling_enemy_before falling_boss_before world_dims_flat)
    apply (simp add: corners_def rect_ops corner_hits_flat in_world_def config)
    done
qed

section \<open>Resolution at zero displacement\<close>

lemma spawned_enemy_resolved:
  "Enemy_resolve_collisions air_world (Enemy_init 0 960 1.5) 0 0
     = Inr ((Enemy_init 0 960 1.5)\<lparr>rect := \<lparr>rect_x = 0, rect_y = 912, rect_w = 32, rect_h = 48\<rparr>\<rparr>)"
  "rect (Enemy_init 0 960 1.5) = \<lparr>rect_x = - 16, rect_y = 912, rect_w = 32, rect_h = 48\<rparr>"
  by (simp_all add: Enemy_resolve_collisions_def resolve_loop_zero_total world_dims_air
      keep_within_bounds_def Enemy_init_def sprite_rect_def set_bottom_def set_centerx_def
      left_def right_def set_left_def set_right_def py_int_def config)

lemma spawned_boss_resolved:
  "Boss_resolve_collisions air_world (Boss_init 0 960) 0 0
     = Inr ((Boss_init 0 960)\<lparr>rect := \<lparr>rect_x = 0, rect_y = 832, rect_w = 128, rect_h = 128\<rparr>\<rparr>)"
  by (simp add: Boss_resolve_collisions_def resolve_loop_zero_total world_dims_air
      keep_within_bounds_def Boss_init_def sprite_rect_def set_bottom_def set_centerx_def
      left_def right_def set_left_def set_right_def config)

lemma keep_within_bounds_idem: "keep_within_bounds (keep_within_bounds b) = keep_within_bounds b"
  by (simp add: keep_within_bounds_def Let_def left_def right_def set_left_def set_right_def)

text \<open>
  Claim C8, as stated, fails: an enemy is created with its rectangle centred on the left
  border of its spawn column, so an enemy spawned in column 0 starts at \<open>x = -16\<close>, and
  collision resolution with \<open>dx = dy = 0\<close> moves it to \<open>x = 0\<close> ("Keep within world
  bounds").
\<close>

theorem zero_displacement_moves_enemy_counterexample:
  "Enemy_resolve_collisions air_world (Enemy_init 0 960 1.5) 0 0
     = Inr ((Enemy_init 0 960 1.5)\<lparr>rect := \<lparr>rect_x = 0, rect_y = 912, rect_w = 32, rect_h = 48\<rparr>\<rparr>)
   \<and> rect (Enemy_init 0 960 1.5) = \<lparr>rect_x = - 16, rect_y = 912, rect_w = 32, rect_h = 48\<rparr>"
  using spawned_enemy_resolved by simp

text \<open>
  Claim C8, amended.  Collision resolution with \<open>dx = 0\<close> and \<open>dy = 0\<close> never changes
  a player, at any position and on any grid; it returns on every grid of the world's
  dimensions; and it leaves an enemy or a boss unchanged whenever its rectangle lies within
  the horizontal bounds of the world (\<open>left \<ge> 0\<close> and \<open>right \<le> WORLD_WIDTH * TILE_SIZE\<close>),
  whatever its vertical position, and whenever the body is the result of an earlier call
  of the procedure (calling it again changes nothing).
\<close>

theorem zero_displacement_keeps_position:
  "(Player_resolve_collisions world p 0 0 = Inr p' \<longrightarrow> p' = p)
   \<and> (world_dims world \<longrightarrow> Player_resolve_collisions world p 0 0 = Inr p)
   \<and> (world_dims world \<and> 0 \<le> left (rect e) \<and> right (rect e) \<le> WORLD_WIDTH * TILE_SIZE
        \<longrightarrow> Enemy_resolve_collisions world e 0 0 = Inr e)
   \<and> (world_dims world \<and> 0 \<le> left (rect b) \<and> right (rect b) \<le> WORLD_WIDTH * TILE_SIZE
        \<longrightarrow> Boss_resolve_collisions world b 0 0 = Inr b)
   \<and> (world_dims world \<and> Enemy_resolve_collisions world e0 dx dy = Inr e
        \<longrightarrow> Enemy_resolve_collisions world e 0 0 = Inr e)
   \<and> (world_dims world \<and> Boss_resolve_collisions world b0 dx dy = Inr b
        \<longrightarrow> Boss_resolve_collisions world b 0 0 = Inr b)"
  by (auto simp add: Player_resolve_collisions_def Enemy_resolve_collisions_def
      Boss_resolve_collisions_def resolve_loop_zero_total keep_within_bounds_inside
      keep_within_bounds_idem
      split: sum.splits dest: resolve_loop_zero)

text \<open>The falling bodies of the examples are inside the horizontal bounds and stay where they
  are; the enemy and the boss spawned on the left border, once moved in by a first call, stay
  where that call has put them.\<close>

theorem zero_displacement_keeps_position_witness:
  "world_dims flat_world
   \<and> 0 \<le> left (rect falling_enemy) \<and> right (rect falling_enemy) \<le> WORLD_WIDTH * TILE_SIZE
   \<and> 0 \<le> left (rect falling_boss) \<and> right (rect falling_boss) \<le> WORLD_WIDTH * TILE_SIZE
   \<and> Player_resolve_collisions flat_world falling_player 0 0 = Inr falling_player
   \<and> Enemy_resolve_collisions flat_world falling_enemy 0 0 = Inr falling_enemy
   \<and> Boss_resolve_collisions flat_world falling_boss 0 0 = Inr falling_boss
   \<and> world_dims air_world
   \<and> Enemy_resolve_collisions air_world (Enemy_init 0 960 1.5) 0 0
       = Inr ((Enemy_init 0 960 1.5)\<lparr>rect := \<lparr>rect_x = 0, rect_y = 912, rect_w = 32, rect_h = 48\<rparr>\<rparr>)
   \<and> Enemy_resolve_collisions air_world
         ((Enemy_init 0 960 1.5)\<lparr>rect := \<lparr>rect_x = 0, rect_y = 912, rect_w = 32, rect_h = 48\<rparr>\<rparr>) 0 0
       = Inr ((Enemy_init 0 960 1.5)\<lparr>rect := \<lparr>rect_x = 0, rect_y = 912, rect_w = 32, rect_h = 48\<rparr>\<rparr>)
   \<and> Boss_resolve_collisions air_world (Boss_init 0 960) 0 0
       = Inr ((Boss_init 0 960)\<lparr>rect := \<lparr>rect_x = 0, rect_y = 832, rect_w = 128, rect_h = 128\<rparr>\<rparr>)
   \<and> Boss_resolve_collisions air_world
         ((Boss_init 0 960)\<lparr>rect := \<lparr>rect_x = 0, rect_y = 832, rect_w = 128, rect_h = 128\<rparr>\<rparr>) 0 0
       = Inr ((Boss_init 0 960)\<lparr>rect := \<lparr>rect_x = 0, rect_y = 832, rect_w = 128, rect_h = 128\<rparr>\<rparr>)"
proof -
  have inside: "0 \<le> left (rect falling_enemy) \<and> right (rect falling_enemy) \<le> WORLD_WIDTH * TILE_SIZE
    \<and> 0 \<le> left (rect falling_boss) \<and> right (rect falling_boss) \<le> WORLD_WIDTH * TILE_SIZE"
    by (simp add: falling_enemy_def falling_boss_def Enemy_init_def Boss_init_def sprite_rect_def
        rect_ops py_int_def config)
  from inside world_dims_flat world_dims_air spawned_enemy_resolved(1) spawned_boss_resolved
    zero_displacement_keeps_position [where world = flat_world and p = falling_player
        and p' = falling_player and e = falling_enemy and b = falling_boss
        and ?e0.0 = falling_enemy and ?b0.0 = falling_boss and dx = 0 and dy = 0]
    zero_displacement_keeps_position [where world = air_world and p = falling_player
        and p' = falling_player and ?e0.0 = "Enemy_init 0 960 1.5" and ?b0.0 = "Boss_init 0 960"
        and dx = 0 and dy = 0
        and e = "(Enemy_init 0 960 1.5)\<lparr>rect := \<lparr>rect_x = 0, rect_y = 912, rect_w = 32, rect_h = 48\<rparr>\<rparr>"
        and b = "(Boss_init 0 960)\<lparr>rect := \<lparr>rect_x = 0, rect_y = 832, rect_w = 128, rect_h = 128\<rparr>\<rparr>"]
  show ?thesis by blast
qed

section \<open>Corners outside the world\<close>

text \<open>
  Claim C9.  For every position of a body, collision resolution returns without raising on
  every grid of the world's dimensions; a corner whose tile coordinate is outside
  \<open>[0, WORLD_WIDTH) \<times> [0, WORLD_HEIGHT)\<close> leaves the body as it is, on any grid at all
  (it is not looked up and triggers no snapping); and the result depends on the grid only
  through the tiles at coordinates inside that range: two grids that agree there give the
  same result.
\<close>

theorem out_of_range_corners_are_not_solid:
  "(world_dims world \<longrightarrow>
      (\<exists>p'. Player_resolve_collisions world p dx dy = Inr p')
      \<and> (\<exists>e'. Enemy_resolve_collisions world e dx dy = Inr e')
      \<and> (\<exists>b'. Boss_resolve_collisions world b dx dy = Inr b'))
   \<and> (\<not> in_world (fst c div TILE_SIZE) (snd c div TILE_SIZE) \<longrightarrow>
        resolve_corner w1 dx dy b0 c = Inr b0)
   \<and> ((\<forall>tx ty. in_world tx ty \<longrightarrow> tile_at w1 ty tx = tile_at w2 ty tx) \<longrightarrow>
        Player_resolve_collisions w1 p dx dy = Player_resolve_collisions w2 p dx dy
        \<and> Enemy_resolve_collisions w1 e dx dy = Enemy_resolve_collisions w2 e dx dy
        \<and> Boss_resolve_collisions w1 b dx dy = Boss_resolve_collisions w2 b dx dy)"
proof (intro conjI impI)
  assume d: "world_dims world"
  from resolve_loop_total [OF d]
  show "\<exists>p'. Player_resolve_collisions world p dx dy = Inr p'"
    by (simp add: Player_resolve_collisions_def)
  from resolve_loop_total [OF d, of dx dy e "corners (rect e)"]
  show "\<exists>e'. Enemy_resolve_collisions world e dx dy = Inr e'"
    by (auto simp add: Enemy_resolve_collisions_def)
  from resolve_loop_total [OF d, of dx dy b "corners (rect b)"]
  show "\<exists>b'. Boss_resolve_collisions world b dx dy = Inr b'"
    by (auto simp add: Boss_resolve_collisions_def)
next
  assume "\<not> in_world (fst c div TILE_SIZE) (snd c div TILE_SIZE)"
  then show "resolve_corner w1 dx dy b0 c = Inr b0"
    by (rule resolve_corner_outside)
next
  assume "\<forall>tx ty. in_world tx ty \<longrightarrow> tile_at w1 ty tx = tile_at w2 ty tx"
  then have eq: "\<And>b cs. resolve_loop w1 dx dy b cs = resolve_loop w2 dx dy b cs"
    by (intro resolve_loop_cong) simp
  show "Player_resolve_collisions w1 p dx dy = Player_resolve_collisions w2 p dx dy"
    by (simp add: Player_resolve_collisions_def eq)
  show "Enemy_resolve_collisions w1 e dx dy = Enemy_resolve_collisions w2 e dx dy"
    by (simp add: Enemy_resolve_collisions_def eq)
  show "Boss_resolve_collisions w1 b dx dy = Boss_resolve_collisions w2 b dx dy"
    by (simp add: Boss_resolve_collisions_def eq)
qed

text \<open>Appending a row of stone below \<open>flat_world\<close> changes no tile inside the world, and
  no result of collision resolution: here for bodies hanging out of the world's lower left
  corner.\<close>

theorem out_of_range_corners_are_not_solid_witness:
  "world_dims flat_world
   \<and> \<not> in_world (- 16 div TILE_SIZE) (1919 div TILE_SIZE)
   \<and> (\<exists>p'. Player_resolve_collisions flat_world (Player_init 0 1950) 0 5 = Inr p')
   \<and> (\<exists>e'. Enemy_resolve_collisions flat_world (Enemy_init 0 1950 1.5) 0 5 = Inr e')
   \<and> (\<exists>b'. Boss_resolve_collisions flat_world (Boss_init 0 1950) 0 5 = Inr b')
   \<and> resolve_corner flat_world 0 5 (Player_init 0 1950) (- 16, 1919) = Inr (Player_init 0 1950)
   \<and> Player_resolve_collisions flat_world (Player_init 0 1950) 0 5
       = Player_resolve_collisions (flat_world @ [replicate 100 3]) (Player_init 0 1950) 0 5
   \<and> Enemy_resolve_collisions flat_world (Enemy_init 0 1950 1.5) 0 5
       = Enemy_resolve_collisions (flat_world @ [replicate 100 3]) (Enemy_init 0 1950 1.5) 0 5
   \<and> Boss_resolve_collisions flat_world (Boss_init 0 1950) 0 5
       = Boss_resolve_collisions (flat_world @ [replicate 100 3]) (Boss_init 0 1950) 0 5"
proof -
  have out: "\<not> in_world (- 16 div TILE_SIZE) (1919 div TILE_SIZE)"
    by (simp add: in_world_def config)
  have agree: "\<forall>tx ty. in_world tx ty \<longrightarrow>
         tile_at flat_world ty tx = tile_at (flat_world @ [replicate 100 3]) ty tx"
    by (simp add: tile_at_extended [OF world_dims_flat])
  from out agree world_dims_flat
    out_of_range_corners_are_not_solid [where world = flat_world and ?w1.0 = flat_world
        and ?w2.0 = "flat_world @ [replicate 100 3]" and dx = 0 and dy = 5
        and p = "Player_init 0 1950" and e = "Enemy_init 0 1950 1.5" and b = "Boss_init 0 1950"
        and ?b0.0 = "Player_init 0 1950" and c = "(- 16, 1919)"]
  show ?thesis unfolding fst_conv snd_conv by blast
qed

section \<open>Mining and placing blocks\<close>

lemma set_tile_in_world:
  assumes "world_dims world" "in_world tile_x tile_y"
  shows "set_tile world tile_y tile_x v =
           Inr (world[nat tile_y := (world ! nat tile_y)[nat tile_x := v]])"
proof -
  from assms have y: "0 \<le> tile_y" "tile_y < int (length world)"
    by (simp_all add: world_dims_def in_world_def)
  then have "world ! nat tile_y \<in> set world" by simp
  with assms have "int (length (world ! nat tile_y)) = WORLD_WIDTH"
    by (simp add: world_dims_def list_all_iff)
  with assms have x: "0 \<le> tile_x" "tile_x < int (length (world ! nat tile_y))"
    by (simp_all add: in_world_def)
  show ?thesis
    by (simp add: set_tile_def py_get_def py_set_def py_index_def y x)
qed

lemma valid_tiles_nth:
  assumes "world_dims world" "valid_tiles world" "in_world tile_x tile_y"
  shows "0 \<le> world ! nat tile_y ! nat tile_x \<and> world ! nat tile_y ! nat tile_x \<le> 5"
proof -
  from assms have y: "nat tile_y < length world"
    by (auto simp add: world_dims_def in_world_def)
  then have row: "world ! nat tile_y \<in> set world" by simp
  with assms have "int (length (world ! nat tile_y)) = WORLD_WIDTH"
    by (simp add: world_dims_def list_all_iff)
  with assms have "nat tile_x < length (world ! nat tile_y)"
    by (auto simp add: in_world_def)
  then have "world ! nat tile_y ! nat tile_x \<in> set (world ! nat tile_y)" by simp
  with row assms(2) show ?thesis
    by (auto simp add: valid_tiles_def list_all_iff)
qed

lemma mine_block_in_reach:
  assumes "world_dims world" "in_world wx wy" "target_tile camera mouse_pos = (wx, wy)"
    and "\<bar>wx - centerx (rect p) div TILE_SIZE\<bar> \<le> 4" "\<bar>wy - centery (rect p) div TILE_SIZE\<bar> \<le> 4"
    and "world ! nat wy ! nat wx \<noteq> 0" "wy < WORLD_HEIGHT - 1"
  shows "Player_mine_block world p camera mouse_pos =
     Inr (world[nat wy := (world ! nat wy)[nat wx := 0]],
          case mined_item (world ! nat wy ! nat wx) of None \<Rightarrow> p | Some k \<Rightarrow> add_item k 1 p)"
  using assms
  by (simp add: Player_mine_block_def Let_def tile_at_in_world set_tile_in_world mined_item_def)

lemma mine_block_noop:
  assumes "world_dims world" "target_tile camera mouse_pos = (wx, wy)"
    and "\<bar>wx - centerx (rect p) div TILE_SIZE\<bar> > 4 \<or> \<bar>wy - centery (rect p) div TILE_SIZE\<bar> > 4
       \<or> \<not> in_world wx wy \<or> world ! nat wy ! nat wx = 0 \<or> wy = WORLD_HEIGHT - 1"
  shows "Player_mine_block world p camera mouse_pos = Inr (world, p)"
  using assms
  by (auto simp add: Player_mine_block_def Let_def tile_at_in_world)

lemma place_block_free:
  assumes "world_dims world" "in_world wx wy" "target_tile camera mouse_pos = (wx, wy)"
    and "inventory p (selected p) > 0" "world ! nat wy ! nat wx = 0"
    and "\<not> colliderect (rect p) (tile_rect wx wy)"
  shows "Player_place_block world p camera mouse_pos =
     Inr (world[nat wy := (world ! nat wy)[nat wx := tile_of_item (selected p)]],
          add_item (selected p) (- 1) p)"
  using assms
  by (simp add: Player_place_block_def Let_def tile_at_in_world set_tile_in_world)

lemma place_block_noop:
  assumes "world_dims world" "target_tile camera mouse_pos = (wx, wy)"
    and "inventory p (selected p) \<le> 0 \<or> \<not> in_world wx wy \<or> world ! nat wy ! nat wx \<noteq> 0
       \<or> colliderect (rect p) (tile_rect wx wy)"
  shows "Player_place_block world p camera mouse_pos = Inr (world, p)"
  using assms
  by (auto simp add: Player_place_block_def Let_def tile_at_in_world)

lemma set_tile_result:
  assumes "set_tile world tile_y tile_x v = Inr world'" "0 \<le> tile_x" "0 \<le> tile_y"
  shows "nat tile_y < length world \<and> nat tile_x < length (world ! nat tile_y)
     \<and> world' = world[nat tile_y := (world ! nat tile_y)[nat tile_x := v]]"
  using assms
  by (auto simp add: set_tile_def py_get_def py_set_def py_index_def split: if_splits)

lemma tile_at_result:
  assumes "tile_at world tile_y tile_x = Inr t" "0 \<le> tile_x" "0 \<le> tile_y"
  shows "world ! nat tile_y ! nat tile_x = t"
  using assms
  by (auto simp add: tile_at_def py_get_def py_index_def split: if_splits)

lemma set_tile_restore:
  assumes "set_tile world tile_y tile_x v = Inr world1"
    and "set_tile world1 tile_y tile_x t = Inr world2"
    and "tile_at world tile_y tile_x = Inr t" "0 \<le> tile_x" "0 \<le> tile_y"
  shows "world2 = world"
proof -
  note a = set_tile_result [OF assms(1) assms(4) assms(5)]
  note b = set_tile_result [OF assms(2) assms(4) assms(5)]
  note c = tile_at_result [OF assms(3) assms(4) assms(5)]
  from a b have "world2 = world[nat tile_y := (world ! nat tile_y)[nat tile_x := t]]"
    by simp
  moreover from c have "(world ! nat tile_y)[nat tile_x := t] = world ! nat tile_y"
    by (metis list_update_id)
  ultimately show ?thesis
    by (simp only: list_update_id)
qed

lemma mine_block_changed:
  assumes "Player_mine_block world p camera mouse_pos = Inr (world1, p1)"
    and "(world1, p1) \<noteq> (world, p)" "target_tile camera mouse_pos = (wx, wy)"
    and "tile_at world wy wx = Inr tile"
  shows "in_world wx wy \<and> tile \<noteq> 0
     \<and> p1 = (case mined_item tile of None \<Rightarrow> p | Some k \<Rightarrow> add_item k 1 p)
     \<and> set_tile world wy wx 0 = Inr world1"
  using assms
  by (auto simp add: Player_mine_block_def Let_def mined_item_def split: if_splits sum.splits)

lemma place_block_changed:
  assumes "Player_place_block world p camera mouse_pos = Inr (world1, p1)"
    and "(world1, p1) \<noteq> (world, p)" "target_tile camera mouse_pos = (wx, wy)"
  shows "in_world wx wy \<and> p1 = add_item (selected p) (- 1) p
     \<and> set_tile world wy wx (tile_of_item (selected p)) = Inr world1"
  using assms
  by (auto simp add: Player_place_block_def Let_def split: if_splits sum.splits)

lemma flat_world_nth:
  "i < 60 \<Longrightarrow> j < 100 \<Longrightarrow> flat_world ! i ! j = (if i < 30 then 0 else 3)"
  by (auto simp add: flat_world_def nth_append)

lemma valid_tiles_flat: "valid_tiles flat_world"
  by (auto simp add: valid_tiles_def flat_world_def list_all_iff)

lemma world_dims_update:
  assumes "world_dims world"
  shows "world_dims (world[i := (world ! i)[j := v]])"
proof (cases "i < length world")
  case True
  then have "set (world[i := (world ! i)[j := v]]) \<subseteq> insert ((world ! i)[j := v]) (set world)"
    by (rule_tac set_update_subset_insert)
  moreover from True assms have "int (length ((world ! i)[j := v])) = WORLD_WIDTH"
    by (simp add: world_dims_def list_all_iff)
  ultimately show ?thesis using assms
    by (auto simp add: world_dims_def list_all_iff)
next
  case False
  then have "world[i := (world ! i)[j := v]] = world"
    by (simp add: list_update_beyond)
  with assms show ?thesis by simp
qed

lemma world_dims_mined: "world_dims mined_world"
  unfolding mined_world_def by (rule world_dims_update [OF world_dims_flat])

lemma standing_player_rect:
  "rect standing_player = \<lparr>rect_x = 144, rect_y = 912, rect_w = 32, rect_h = 48\<rparr>"
  "inventory standing_player = (\<lambda>_. 0)" "selected standing_player = Dirt"
  by (simp_all add: standing_player_def Player_init_def sprite_rect_def set_bottom_def
      set_centerx_def py_int_def config)

lemma target_examples:
  "target_tile (0, 0) (200, 970) = (6, 30)" "target_tile (0, 0) (1000, 970) = (31, 30)"
  by (simp_all add: target_tile_def config)

lemma mined_world_nth: "mined_world ! 30 ! 6 = 0"
  by (simp add: mined_world_def flat_world_def nth_append)

lemma mined_world_restored: "mined_world[30 := (mined_world ! 30)[6 := 3]] = flat_world"
proof -
  have "flat_world ! 30 ! 6 = 3"
    by (simp add: flat_world_nth)
  then have "(flat_world ! 30)[6 := 3] = flat_world ! 30"
    by (metis list_update_id)
  moreover have "30 < length flat_world"
    by (simp add: flat_world_def)
  ultimately show ?thesis
    by (simp add: mined_world_def)
qed

lemma no_overlap_example: "\<not> colliderect (rect standing_player) (tile_rect 6 30)"
  by (simp add: colliderect_def standing_player_rect tile_rect_def config)

text \<open>
  Claim C4.  On every grid of the world's dimensions whose tiles are among the six
  identifiers, for every player and every target: \<open>mine_block\<close> returns the grid and the
  player unchanged, without raising, whenever the target tile is more than 4 tiles from the
  player's tile in either axis, or outside the world, or air, or in the last row; otherwise
  it sets exactly the target tile to air and adds 1 to exactly one inventory count: dirt for
  dirt and grass, stone for stone, ore for ore, wood for wood.
\<close>

theorem mine_block_no_op_or_one_item:
  assumes "world_dims world" "valid_tiles world" "target_tile camera mouse_pos = (wx, wy)"
  shows "if \<bar>wx - centerx (rect p) div TILE_SIZE\<bar> > 4 \<or> \<bar>wy - centery (rect p) div TILE_SIZE\<bar> > 4
            \<or> \<not> in_world wx wy \<or> world ! nat wy ! nat wx = 0 \<or> wy = WORLD_HEIGHT - 1
         then Player_mine_block world p camera mouse_pos = Inr (world, p)
         else \<exists>k. Player_mine_block world p camera mouse_pos =
                    Inr (world[nat wy := (world ! nat wy)[nat wx := 0]],
                         p\<lparr>inventory := (inventory p)(k := inventory p k + 1)\<rparr>)
                  \<and> k = (let tile = world ! nat wy ! nat wx
                         in if tile = 1 \<or> tile = 2 then Dirt else if tile = 3 then Stone
                            else if tile = 4 then Ore else Wood)"
proof (cases "\<bar>wx - centerx (rect p) div TILE_SIZE\<bar> > 4 \<or> \<bar>wy - centery (rect p) div TILE_SIZE\<bar> > 4
            \<or> \<not> in_world wx wy \<or> world ! nat wy ! nat wx = 0 \<or> wy = WORLD_HEIGHT - 1")
  case True
  with mine_block_noop [OF assms(1) assms(3) True] show ?thesis by simp
next
  case False
  then have w: "in_world wx wy" and t: "world ! nat wy ! nat wx \<noteq> 0"
    and r: "\<bar>wx - centerx (rect p) div TILE_SIZE\<bar> \<le> 4" "\<bar>wy - centery (rect p) div TILE_SIZE\<bar> \<le> 4"
    and l: "wy < WORLD_HEIGHT - 1"
    by (auto simp add: in_world_def)
  from valid_tiles_nth [OF assms(1) assms(2) w] t
  have "mined_item (world ! nat wy ! nat wx) =
      Some (let tile = world ! nat wy ! nat wx
            in if tile = 1 \<or> tile = 2 then Dirt else if tile = 3 then Stone
               else if tile = 4 then Ore else Wood)"
    by (simp add: mined_item_def Let_def)
  with mine_block_in_reach [OF assms(1) w assms(3) r t l] False show ?thesis
    by (simp add: add_item_def)
qed

text \<open>The standing player mines the stone at column 6, row 30, and mines nothing at column
  31.\<close>

theorem mine_block_no_op_or_one_item_witness:
  "world_dims flat_world \<and> valid_tiles flat_world
   \<and> target_tile (0, 0) (200, 970) = (6, 30)
   \<and> Player_mine_block flat_world standing_player (0, 0) (200, 970) =
        Inr (mined_world, standing_player\<lparr>inventory := (\<lambda>_. 0)(Stone := 1)\<rparr>)
   \<and> target_tile (0, 0) (1000, 970) = (31, 30)
   \<and> Player_mine_block flat_world standing_player (0, 0) (1000, 970) =
        Inr (flat_world, standing_player)"
  using mine_block_no_op_or_one_item [OF world_dims_flat valid_tiles_flat target_examples(1), of standing_player]
    mine_block_no_op_or_one_item [OF world_dims_flat valid_tiles_flat target_examples(2), of standing_player]
  by (simp add: world_dims_flat valid_tiles_flat target_examples standing_player_rect
      centerx_def centery_def in_world_def flat_world_nth mined_world_def config)

text \<open>
  Claim C5.  On every grid of the world's dimensions, for every player whose count of the
  selected resource is not negative and every target: \<open>place_block\<close> returns the grid and
  the player unchanged whenever that count is 0, or the target tile is outside the world, or
  it is not air, or its rectangle overlaps the player's; otherwise it writes the tile
  identifier of the selected resource (dirt 1, stone 3, ore 4, wood 5) at the target and
  takes exactly 1 from that resource's count.
\<close>

theorem place_block_no_op_or_one_tile:
  assumes "world_dims world" "0 \<le> inventory p (selected p)"
    and "target_tile camera mouse_pos = (wx, wy)"
  shows "if inventory p (selected p) = 0 \<or> \<not> in_world wx wy \<or> world ! nat wy ! nat wx \<noteq> 0
            \<or> colliderect (rect p) (tile_rect wx wy)
         then Player_place_block world p camera mouse_pos = Inr (world, p)
         else Player_place_block world p camera mouse_pos =
                Inr (world[nat wy := (world ! nat wy)
                       [nat wx := (case selected p of Dirt \<Rightarrow> 1 | Stone \<Rightarrow> 3 | Ore \<Rightarrow> 4 | Wood \<Rightarrow> 5)]],
                     p\<lparr>inventory := (inventory p)(selected p := inventory p (selected p) - 1)\<rparr>)"
proof (cases "inventory p (selected p) = 0 \<or> \<not> in_world wx wy \<or> world ! nat wy ! nat wx \<noteq> 0
            \<or> colliderect (rect p) (tile_rect wx wy)")
  case True
  then have "inventory p (selected p) \<le> 0 \<or> \<not> in_world wx wy \<or> world ! nat wy ! nat wx \<noteq> 0
       \<or> colliderect (rect p) (tile_rect wx wy)"
    by auto
  from place_block_noop [OF assms(1) assms(3) this] True show ?thesis by simp
next
  case False
  with assms(2) have "in_world wx wy" "inventory p (selected p) > 0"
    "world ! nat wy ! nat wx = 0" "\<not> colliderect (rect p) (tile_rect wx wy)"
    by auto
  from place_block_free [OF assms(1) this(1) assms(3) this(2-4)] False show ?thesis
    by (simp add: add_item_def tile_of_item_def)
qed

text \<open>The stocked player puts the stone back at column 6, row 30; the player with nothing
  to place leaves the grid as it is.\<close>

theorem place_block_no_op_or_one_tile_witness:
  "world_dims mined_world \<and> 0 \<le> inventory stocked_player (selected stocked_player)
   \<and> target_tile (0, 0) (200, 970) = (6, 30)
   \<and> Player_place_block mined_world stocked_player (0, 0) (200, 970) =
        Inr (flat_world, stocked_player\<lparr>inventory := (\<lambda>_. 0)(Stone := 0)\<rparr>)
   \<and> 0 \<le> inventory standing_player (selected standing_player)
   \<and> Player_place_block mined_world standing_player (0, 0) (200, 970) =
        Inr (mined_world, standing_player)"
proof -
  have s: "0 \<le> inventory stocked_player (selected stocked_player)"
    and e: "0 \<le> inventory standing_player (selected standing_player)"
    by (simp_all add: stocked_player_def standing_player_rect)
  have r: "rect stocked_player = rect standing_player"
    by (simp add: stocked_player_def)
  from place_block_no_op_or_one_tile [OF world_dims_mined s target_examples(1)]
    place_block_no_op_or_one_tile [OF world_dims_mined e target_examples(1)]
    no_overlap_example
  show ?thesis
    by (simp add: world_dims_mined target_examples r mined_world_nth mined_world_restored
        in_world_def stocked_player_def standing_player_rect config)
qed

text \<open>
  Claim C6.  Mine-then-place round trip: when the player mines a tile that holds stone and
  the mine succeeds (it changes something), and then, with stone selected, places at the
  same tile coordinate and the place succeeds, the grid is the original grid again, with the
  stone tile identifier at that coordinate, and the inventory equals the inventory before
  the mine.
\<close>

theorem mine_then_place_round_trip:
  assumes "target_tile camera mouse_pos = (wx, wy)" "target_tile camera' mouse_pos' = (wx, wy)"
    and "tile_at world wy wx = Inr 3"
    and "Player_mine_block world p camera mouse_pos = Inr (world1, p1)"
    and "(world1, p1) \<noteq> (world, p)"
    and "Player_place_block world1 (p1\<lparr>selected := Stone\<rparr>) camera' mouse_pos' = Inr (world2, p2)"
    and "(world2, p2) \<noteq> (world1, p1\<lparr>selected := Stone\<rparr>)"
  shows "world2 = world \<and> tile_at world2 wy wx = Inr 3 \<and> inventory p2 = inventory p
     \<and> p2 = p\<lparr>selected := Stone\<rparr>"
proof -
  from mine_block_changed [OF assms(4) assms(5) assms(1) assms(3)]
  have w: "in_world wx wy" and p1: "p1 = add_item Stone 1 p"
    and s1: "set_tile world wy wx 0 = Inr world1"
    by (auto simp add: mined_item_def)
  from place_block_changed [OF assms(6) assms(7) assms(2)]
  have p2: "p2 = add_item Stone (- 1) (p1\<lparr>selected := Stone\<rparr>)"
    and s2: "set_tile world1 wy wx 3 = Inr world2"
    by (simp_all add: tile_of_item_def)
  from w have pos: "0 \<le> wx" "0 \<le> wy" by (simp_all add: in_world_def)
  from set_tile_restore [OF s1 s2 assms(3) pos] have "world2 = world" .
  moreover from p1 p2 have "p2 = p\<lparr>selected := Stone\<rparr>"
    by (simp add: add_item_def)
  ultimately show ?thesis using assms(3) by simp
qed

text \<open>The round trip of the standing player at column 6, row 30 of \<open>flat_world\<close>.\<close>

theorem mine_then_place_round_trip_witness:
  "target_tile (0, 0) (200, 970) = (6, 30)
   \<and> tile_at flat_world 30 6 = Inr 3
   \<and> Player_mine_block flat_world standing_player (0, 0) (200, 970) =
        Inr (mined_world, add_item Stone 1 standing_player)
   \<and> (mined_world, add_item Stone 1 standing_player) \<noteq> (flat_world, standing_player)
   \<and> Player_place_block mined_world ((add_item Stone 1 standing_player)\<lparr>selected := Stone\<rparr>)
          (0, 0) (200, 970) =
        Inr (mined_world[30 := (mined_world ! 30)[6 := 3]],
             add_item Stone (- 1) ((add_item Stone 1 standing_player)\<lparr>selected := Stone\<rparr>))
   \<and> mined_world[30 := (mined_world ! 30)[6 := 3]] = flat_world
   \<and> tile_at (mined_world[30 := (mined_world ! 30)[6 := 3]]) 30 6 = Inr 3
   \<and> inventory (add_item Stone (- 1) ((add_item Stone 1 standing_player)\<lparr>selected := Stone\<rparr>))
        = inventory standing_player"
proof -
  have w: "in_world 6 30"
    by (simp add: in_world_def config)
  have t: "tile_at flat_world 30 6 = Inr 3"
    by (simp add: tile_at_flat [OF w])
  have reach: "\<bar>6 - centerx (rect standing_player) div TILE_SIZE\<bar> \<le> 4"
    "\<bar>30 - centery (rect standing_player) div TILE_SIZE\<bar> \<le> 4"
    by (simp_all add: standing_player_rect centerx_def centery_def config)
  have stone: "flat_world ! nat 30 ! nat 6 \<noteq> 0" "(30::int) < WORLD_HEIGHT - 1"
    by (simp_all add: flat_world_nth config)
  have m: "Player_mine_block flat_world standing_player (0, 0) (200, 970) =
        Inr (mined_world, add_item Stone 1 standing_player)"
    using mine_block_in_reach [OF world_dims_flat w target_examples(1) reach stone]
    by (simp add: mined_world_def flat_world_nth mined_item_def)
  have ne1: "(mined_world, add_item Stone 1 standing_player) \<noteq> (flat_world, standing_player)"
  proof
    assume "(mined_world, add_item Stone 1 standing_player) = (flat_world, standing_player)"
    then have "mined_world ! 30 ! 6 = flat_world ! 30 ! 6" by simp
    then show False by (simp add: mined_world_nth flat_world_nth)
  qed
  have inv: "inventory ((add_item Stone 1 standing_player)\<lparr>selected := Stone\<rparr>)
        (selected ((add_item Stone 1 standing_player)\<lparr>selected := Stone\<rparr>)) > 0"
    by (simp add: add_item_def standing_player_rect)
  have air: "mined_world ! nat 30 ! nat 6 = 0"
    by (simp add: mined_world_nth)
  have free: "\<not> colliderect (rect ((add_item Stone 1 standing_player)\<lparr>selected := Stone\<rparr>))
       (tile_rect 6 30)"
    using no_overlap_example by (simp add: add_item_def)
  have pl: "Player_place_block mined_world ((add_item Stone 1 standing_player)\<lparr>selected := Stone\<rparr>)
          (0, 0) (200, 970) =
        Inr (mined_world[30 := (mined_world ! 30)[6 := 3]],
             add_item Stone (- 1) ((add_item Stone 1 standing_player)\<lparr>selected := Stone\<rparr>))"
    using place_block_free [OF world_dims_mined w target_examples(1) inv air free]
    by (simp add: tile_of_item_def)
  have ne2: "(mined_world[30 := (mined_world ! 30)[6 := 3]],
             add_item Stone (- 1) ((add_item Stone 1 standing_player)\<lparr>selected := Stone\<rparr>))
       \<noteq> (mined_world, (add_item Stone 1 standing_player)\<lparr>selected := Stone\<rparr>)"
  proof
    assume "(mined_world[30 := (mined_world ! 30)[6 := 3]],
             add_item Stone (- 1) ((add_item Stone 1 standing_player)\<lparr>selected := Stone\<rparr>))
       = (mined_world, (add_item Stone 1 standing_player)\<lparr>selected := Stone\<rparr>)"
    then have "flat_world ! 30 ! 6 = mined_world ! 30 ! 6"
      by (simp add: mined_world_restored)
    then show False by (simp add: mined_world_nth flat_world_nth)
  qed
  from mine_then_place_round_trip [OF target_examples(1) target_examples(1) t m ne1 pl ne2] t m ne1 pl
  show ?thesis by (simp add: target_examples)
qed

section \<open>Contact damage\<close>

lemma contact_hit:
  "colliderect (rect e) (rect p) \<Longrightarrow> hurt_cooldown p = 0 \<Longrightarrow>
   contact damage push e p =
     p\<lparr>health := health p - damage, hurt_cooldown := 60,
       vel_x := (if centerx (rect e) < centerx (rect p) then vel_x p + push else vel_x p - push)\<rparr>"
  by (simp add: contact_def Let_def)

lemma contact_miss:
  "\<not> colliderect (rect e) (rect p) \<or> hurt_cooldown p \<noteq> 0 \<Longrightarrow> contact damage push e p = p"
  by (auto simp add: contact_def)

lemma contact_fields [simp]:
  "rect (contact damage push e p) = rect p"
  "inventory (contact damage push e p) = inventory p"
  "selected (contact damage push e p) = selected p"
  by (simp_all add: contact_def Let_def)

text \<open>An enemy's update reads the player's rectangle only, which contact does not change: the
  updates of one frame's loop are the updates made with the player the loop starts with.\<close>

lemma Enemy_update_player_rect:
  "rect p = rect q \<Longrightarrow> Enemy_update world p e draw = Enemy_update world q e draw"
  by (simp add: Enemy_update_def Enemy_before_vertical_def)

lemma enemies_loop_player:
  "enemies_loop world draw i p es = Inr (p', es') \<Longrightarrow>
   (if hurt_cooldown p = 0 \<and>
       (\<exists>k<length es. \<exists>e'. Enemy_update world p (es ! k) (draw (i + k)) = Inr e' \<and>
          colliderect (rect e') (rect p))
    then health p' = health p - 10 \<and> hurt_cooldown p' = 60 \<and>
       (\<exists>k<length es. \<exists>e'. Enemy_update world p (es ! k) (draw (i + k)) = Inr e' \<and>
          colliderect (rect e') (rect p) \<and>
          vel_x p' = (if centerx (rect e') < centerx (rect p) then vel_x p + 2 else vel_x p - 2))
    else p' = p)"
proof (induction es arbitrary: i p p' es')
  case Nil
  then show ?case by simp
next
  case (Cons e es)
  from Cons.prems obtain e1 es1 where
    e1: "Enemy_update world p e (draw i) = Inr e1"
    and rest: "enemies_loop world draw (Suc i) (contact 10 2 e1 p) es = Inr (p', es1)"
    by (auto split: sum.splits prod.splits)
  note IH = Cons.IH [OF rest]
  show ?case
  proof (cases "hurt_cooldown p = 0")
    case False
    then have "contact 10 2 e1 p = p" by (simp add: contact_miss)
    with IH False show ?thesis by simp
  next
    case True
    show ?thesis
    proof (cases "colliderect (rect e1) (rect p)")
      case hit: True
      from contact_hit [OF hit True, of 10 2] IH have p': "p' = contact 10 2 e1 p"
        by simp
      have ex: "\<exists>k<length (e # es). \<exists>e'.
          Enemy_update world p ((e # es) ! k) (draw (i + k)) = Inr e' \<and>
          colliderect (rect e') (rect p) \<and>
          vel_x p' = (if centerx (rect e') < centerx (rect p) then vel_x p + 2 else vel_x p - 2)"
        using e1 hit p' contact_hit [OF hit True, of 10 2]
        by (intro exI [of _ 0]) simp
      then have "\<exists>k<length (e # es). \<exists>e'.
          Enemy_update world p ((e # es) ! k) (draw (i + k)) = Inr e' \<and>
          colliderect (rect e') (rect p)"
        by blast
      with True ex p' contact_hit [OF hit True, of 10 2] show ?thesis
        by simp
    next
      case miss: False
      then have same: "contact 10 2 e1 p = p" by (simp add: contact_miss)
      have shift: "\<And>Q. (\<exists>k<length (e # es). \<exists>e'.
          Enemy_update world p ((e # es) ! k) (draw (i + k)) = Inr e' \<and>
          colliderect (rect e') (rect p) \<and> Q e')
        \<longleftrightarrow> (\<exists>k<length es. \<exists>e'.
          Enemy_update world p (es ! k) (draw (Suc i + k)) = Inr e' \<and>
          colliderect (rect e') (rect p) \<and> Q e')"
        using e1 miss by (auto simp add: less_Suc_eq_0_disj)
      have shift1: "(\<exists>k<length (e # es). \<exists>e'.
          Enemy_update world p ((e # es) ! k) (draw (i + k)) = Inr e' \<and>
          colliderect (rect e') (rect p))
        \<longleftrightarrow> (\<exists>k<length es. \<exists>e'.
          Enemy_update world p (es ! k) (draw (Suc i + k)) = Inr e' \<and>
          colliderect (rect e') (rect p))"
        using shift [of "\<lambda>_. True"] by simp
      note shift2 = shift [of "\<lambda>e'. vel_x p' =
          (if centerx (rect e') < centerx (rect p) then vel_x p + 2 else vel_x p - 2)"]
      show ?thesis
        unfolding shift1 shift2 by (rule IH [unfolded same])
    qed
  qed
qed

lemma close_enemy_update:
  "rect p = rect standing_player \<Longrightarrow>
   Enemy_update flat_world p close_enemy 0 =
     Inr (close_enemy\<lparr>rect := \<lparr>rect_x = 153, rect_y = 912, rect_w = 32, rect_h = 48\<rparr>,
            vel_x := - 1.5, vel_y := 0.6\<rparr>)"
  by (simp add: Enemy_update_def Enemy_before_vertical_def close_enemy_def Enemy_init_def
      standing_player_rect sprite_rect_def move_x_def move_y_def Enemy_resolve_collisions_def
      keep_within_bounds_def corners_def resolve_corner_flat corner_hits_flat in_world_def
      cooldown_tick_def rect_ops py_int_def config)

text \<open>
  Claim C10.  Contact damage is gated by the hurt cooldown.  For the loop that updates the
  enemies of one frame, started with the player \<open>p\<close>: if \<open>hurt_cooldown p = 0\<close> and the
  rectangle of some enemy, after its update, overlaps the player's rectangle, then the
  player's health has decreased by exactly 10 at the end of the loop, its hurt cooldown is 60,
  and its horizontal velocity has changed by 2, away from an overlapping enemy (to the right
  when the enemy's centre is left of the player's centre, to the left otherwise); if
  \<open>hurt_cooldown p > 0\<close>, the loop leaves the player's health unchanged, whatever overlaps.
\<close>

theorem contact_damage_gated_by_cooldown:
  assumes "enemies_loop world draw i p es = Inr (p', es')"
  shows
    "(hurt_cooldown p = 0 \<and>
        (\<exists>k<length es. \<exists>e'. Enemy_update world p (es ! k) (draw (i + k)) = Inr e' \<and>
           colliderect (rect e') (rect p))
      \<longrightarrow> health p' = health p - 10 \<and> hurt_cooldown p' = 60 \<and>
          (\<exists>k<length es. \<exists>e'. Enemy_update world p (es ! k) (draw (i + k)) = Inr e' \<and>
             colliderect (rect e') (rect p) \<and>
             vel_x p' = (if centerx (rect e') < centerx (rect p) then vel_x p + 2 else vel_x p - 2)))
     \<and> (hurt_cooldown p > 0 \<longrightarrow> health p' = health p)"
  using enemies_loop_player [OF assms] by (auto split: if_splits)

text \<open>One enemy overlapping the standing player takes 10 of its 100 health points; it takes
  none from the player whose cooldown is 5.\<close>

theorem contact_damage_gated_by_cooldown_witness:
  "enemies_loop flat_world (\<lambda>_. 0) 0 standing_player [close_enemy] =
       Inr (standing_player\<lparr>vel_x := - 2, health := 90, hurt_cooldown := 60\<rparr>,
            [close_enemy\<lparr>rect := \<lparr>rect_x = 153, rect_y = 912, rect_w = 32, rect_h = 48\<rparr>,
               vel_x := - 1.5, vel_y := 0.6\<rparr>])
   \<and> hurt_cooldown standing_player = 0
   \<and> colliderect \<lparr>rect_x = 153, rect_y = 912, rect_w = 32, rect_h = 48\<rparr> (rect standing_player)
   \<and> health (standing_player\<lparr>vel_x := - 2, health := 90, hurt_cooldown := 60\<rparr>)
        = health standing_player - 10
   \<and> enemies_loop flat_world (\<lambda>_. 0) 0 hurt_player [close_enemy] =
       Inr (hurt_player,
            [close_enemy\<lparr>rect := \<lparr>rect_x = 153, rect_y = 912, rect_w = 32, rect_h = 48\<rparr>,
               vel_x := - 1.5, vel_y := 0.6\<rparr>])
   \<and> hurt_cooldown hurt_player > 0"
proof -
  have c: "colliderect \<lparr>rect_x = 153, rect_y = 912, rect_w = 32, rect_h = 48\<rparr> (rect standing_player)"
    by (simp add: colliderect_def standing_player_rect)
  have h: "hurt_cooldown standing_player = 0" "health standing_player = 100"
    "vel_x standing_player = 0" "hurt_cooldown hurt_player > 0"
    "rect hurt_player = rect standing_player"
    by (simp_all add: standing_player_def hurt_player_def Player_init_def)
  have keep: "\<not> (top \<lparr>rect_x = 153, rect_y = 912, rect_w = 32, rect_h = 48\<rparr> > WORLD_HEIGHT * TILE_SIZE
      \<or> health (close_enemy\<lparr>rect := \<lparr>rect_x = 153, rect_y = 912, rect_w = 32, rect_h = 48\<rparr>,
               vel_x := - 1.5, vel_y := 0.6\<rparr>) \<le> 0)"
    by (simp add: top_def close_enemy_def Enemy_init_def config)
  have l1: "enemies_loop flat_world (\<lambda>_. 0) 0 standing_player [close_enemy] =
       Inr (standing_player\<lparr>vel_x := - 2, health := 90, hurt_cooldown := 60\<rparr>,
            [close_enemy\<lparr>rect := \<lparr>rect_x = 153, rect_y = 912, rect_w = 32, rect_h = 48\<rparr>,
               vel_x := - 1.5, vel_y := 0.6\<rparr>])"
    using keep c h
    by (simp add: close_enemy_update contact_def Let_def centerx_def standing_player_rect)
  have l2: "enemies_loop flat_world (\<lambda>_. 0) 0 hurt_player [close_enemy] =
       Inr (hurt_player,
            [close_enemy\<lparr>rect := \<lparr>rect_x = 153, rect_y = 912, rect_w = 32, rect_h = 48\<rparr>,
               vel_x := - 1.5, vel_y := 0.6\<rparr>])"
    using keep c h
    by (simp add: close_enemy_update contact_def Let_def)
  have ex: "\<exists>k<length [close_enemy]. \<exists>e'.
      Enemy_update flat_world standing_player ([close_enemy] ! k) ((\<lambda>_. 0) (0 + k)) = Inr e' \<and>
      colliderect (rect e') (rect standing_player)"
    using c by (intro exI [of _ 0]) (simp add: close_enemy_update)
  from contact_damage_gated_by_cooldown [OF l1] h(1) ex
  have hit: "health (standing_player\<lparr>vel_x := - 2, health := 90, hurt_cooldown := 60\<rparr>)
        = health standing_player - 10"
    by blast
  from l1 h(1) c hit l2 h(4) show ?thesis
    by blast
qed

section \<open>The boss is created once\<close>

lemma handle_event_boss:
  "handle_event ev g = Inr g' \<Longrightarrow> boss_flags g' = boss_flags g"
  by (auto simp add: handle_event_def boss_flags_def
      split: event.splits if_splits option.splits sum.splits prod.splits)

lemma handle_events_boss:
  "handle_events evs g = Inr g' \<Longrightarrow> boss_flags g' = boss_flags g"
proof (induction evs arbitrary: g)
  case Nil
  then show ?case by simp
next
  case (Cons ev evs)
  then show ?case
    by (auto split: sum.splits dest!: handle_event_boss)
qed

lemma player_phase_boss:
  "player_phase ks g = Inr g' \<Longrightarrow> boss_flags g' = boss_flags g"
  by (auto simp add: player_phase_def boss_flags_def Let_def split: sum.splits)

lemma clock_phase_boss: "boss_flags (clock_phase g) = boss_flags g"
  by (simp add: clock_phase_def boss_flags_def Let_def)

lemma enemy_spawn_phase_boss:
  "enemy_spawn_phase inp g = Inr g' \<Longrightarrow> boss_flags g' = boss_flags g"
  by (auto simp add: enemy_spawn_phase_def boss_flags_def Let_def
      split: if_splits sum.splits option.splits)

lemma boss_spawn_phase_boss:
  "boss_spawn_phase g = Inr g' \<Longrightarrow>
   (if \<not> g_boss_spawned g \<and> inventory (g_player g) Ore \<ge> BOSS_SPAWN_ORE_COUNT
    then g_boss g' \<noteq> None \<and> g_boss_spawned g' \<and> g_boss_defeated g' = g_boss_defeated g
       \<and> g_player g' = g_player g
    else g' = g)"
  by (auto simp add: boss_spawn_phase_def Let_def split: if_splits sum.splits)

lemma enemies_loop_inventory:
  "enemies_loop world draw i p es = Inr (p', es') \<Longrightarrow> inventory p' = inventory p"
proof (induction es arbitrary: i p p' es')
  case Nil
  then show ?case by simp
next
  case (Cons e es)
  from Cons.prems obtain e1 es1 where
    "enemies_loop world draw (Suc i) (contact 10 2 e1 p) es = Inr (p', es1)"
    by (auto split: sum.splits prod.splits)
  from Cons.IH [OF this] show ?case by simp
qed

lemma enemies_phase_boss:
  "enemies_phase inp g = Inr g' \<Longrightarrow>
   boss_flags g' = boss_flags g \<and> inventory (g_player g') = inventory (g_player g)"
  by (auto simp add: enemies_phase_def boss_flags_def split: sum.splits prod.splits
      dest: enemies_loop_inventory)

lemma boss_phase_boss:
  "boss_phase inp g = Inr g' \<Longrightarrow>
   g_boss_spawned g' = g_boss_spawned g \<and> (g_boss g' = None \<longleftrightarrow> g_boss g = None)
   \<and> (g_boss_defeated g \<longrightarrow> g_boss_defeated g')
   \<and> inventory (g_player g') = inventory (g_player g)"
  by (auto simp add: boss_phase_def Let_def split: option.splits if_splits sum.splits)

lemma final_phases_boss:
  "boss_flags (story_phase (game_over_phase g)) = boss_flags g"
  "g_player (story_phase (game_over_phase g)) = g_player g"
  by (simp_all add: story_phase_def game_over_phase_def boss_flags_def Let_def)

lemma frame_boss:
  assumes "frame inp g = Inr g'"
  shows "(g_boss_spawned g \<longrightarrow> g_boss_spawned g')
     \<and> (g_boss_defeated g \<longrightarrow> g_boss_defeated g')
     \<and> (g_boss g \<noteq> None \<longrightarrow> g_boss g' \<noteq> None)
     \<and> (g_boss g = None \<and> g_boss g' \<noteq> None \<longrightarrow>
          \<not> g_boss_spawned g \<and> g_boss_spawned g'
          \<and> inventory (g_player g') Ore \<ge> BOSS_SPAWN_ORE_COUNT)"
proof -
  from assms obtain g1 g2 g3 g4 g5 g6 where
    s1: "handle_events (events inp) g = Inr g1"
    and s2: "player_phase (pressed inp) g1 = Inr g2"
    and s3: "enemy_spawn_phase inp (clock_phase g2) = Inr g3"
    and s4: "boss_spawn_phase g3 = Inr g4"
    and s5: "enemies_phase inp g4 = Inr g5"
    and s6: "boss_phase inp g5 = Inr g6"
    and s7: "g' = story_phase (game_over_phase g6)"
    by (auto simp add: frame_def split: sum.splits)
  have f3: "boss_flags g3 = boss_flags g"
    using handle_events_boss [OF s1] player_phase_boss [OF s2]
      enemy_spawn_phase_boss [OF s3] clock_phase_boss [of g2]
    by simp
  have f': "boss_flags g' = boss_flags g6" "g_player g' = g_player g6"
    using s7 by (simp_all add: final_phases_boss)
  note b4 = boss_spawn_phase_boss [OF s4]
  note b5 = enemies_phase_boss [OF s5]
  note b6 = boss_phase_boss [OF s6]
  show ?thesis
  proof (cases "\<not> g_boss_spawned g3 \<and> inventory (g_player g3) Ore \<ge> BOSS_SPAWN_ORE_COUNT")
    case True
    with b4 b5 b6 f3 f' show ?thesis
      by (auto simp add: boss_flags_def)
  next
    case False
    with b4 b5 b6 f3 f' show ?thesis
      by (auto simp add: boss_flags_def)
  qed
qed

lemma run_game_loop_head: "\<exists>gs. run_game_loop inps g = g # gs"
  by (cases inps) simp_all

lemma active_bosses_le: "active_bosses g \<le> 1"
  by (simp add: active_bosses_def)

lemma frame_activation:
  assumes "frame inp g = Inr g'" "active_bosses g = 0" "active_bosses g' = 1"
  shows "\<not> g_boss_spawned g \<and> g_boss_spawned g'
     \<and> inventory (g_player g') Ore \<ge> BOSS_SPAWN_ORE_COUNT"
  using frame_boss [OF assms(1)] assms(2) assms(3)
  by (auto simp add: active_bosses_def split: if_splits)

lemma run_game_loop_spawned:
  "g_boss_spawned g \<Longrightarrow>
   list_all g_boss_spawned (run_game_loop inps g) \<and> boss_creations (run_game_loop inps g) = 0"
proof (induction inps arbitrary: g)
  case Nil
  then show ?case by simp
next
  case (Cons inp inps)
  show ?case
  proof (cases "g_running g")
    case False
    with Cons.prems show ?thesis by simp
  next
    case True
    show ?thesis
    proof (cases "frame inp g")
      case (Inl e)
      with True Cons.prems show ?thesis by simp
    next
      case (Inr g')
      with frame_boss [OF Inr] Cons.prems have s: "g_boss_spawned g'" by simp
      from run_game_loop_head obtain gs where gs: "run_game_loop inps g' = g' # gs" by blast
      from Cons.IH [OF s] gs True Inr Cons.prems s show ?thesis by simp
    qed
  qed
qed

lemma boss_creations_le: "boss_creations (run_game_loop inps g) \<le> 1"
proof (induction inps arbitrary: g)
  case Nil
  then show ?case by simp
next
  case (Cons inp inps)
  show ?case
  proof (cases "g_running g")
    case False
    then show ?thesis by simp
  next
    case True
    show ?thesis
    proof (cases "frame inp g")
      case (Inl e)
      with True show ?thesis by simp
    next
      case (Inr g')
      from run_game_loop_head obtain gs where gs: "run_game_loop inps g' = g' # gs" by blast
      show ?thesis
      proof (cases "g_boss_spawned g'")
        case s: True
        from run_game_loop_spawned [OF s, of inps] gs True Inr show ?thesis by simp
      next
        case False
        with Cons.IH [of g'] gs True Inr show ?thesis by simp
      qed
    qed
  qed
qed

lemma boss_activations_le_creations:
  "boss_activations (run_game_loop inps g) \<le> boss_creations (run_game_loop inps g)"
proof (induction inps arbitrary: g)
  case Nil
  then show ?case by simp
next
  case (Cons inp inps)
  show ?case
  proof (cases "g_running g")
    case False
    then show ?thesis by simp
  next
    case True
    show ?thesis
    proof (cases "frame inp g")
      case (Inl e)
      with True show ?thesis by simp
    next
      case (Inr g')
      from run_game_loop_head obtain gs where gs: "run_game_loop inps g' = g' # gs" by blast
      have "active_bosses g = 0 \<and> active_bosses g' = 1 \<longrightarrow> \<not> g_boss_spawned g \<and> g_boss_spawned g'"
        using frame_activation [OF Inr] by blast
      with Cons.IH [of g'] gs True Inr show ?thesis by auto
    qed
  qed
qed

lemma first_solid_row_flat_from:
  assumes "0 \<le> col" "col < 100"
  shows "0 \<le> a \<Longrightarrow> a \<le> 30 \<Longrightarrow> first_solid_row flat_world col [a..59] = Inr (Some 30)"
proof (induction "nat (30 - a)" arbitrary: a)
  case 0
  then have "a = 30" by simp
  with assms show ?case
    by (simp add: upto_rec1 [of 30] tile_at_flat in_world_def config)
next
  case (Suc n)
  then have a: "a < 30" "n = nat (30 - (a + 1))" "0 \<le> a + 1" "a + 1 \<le> 30"
    by simp_all
  from Suc.hyps(1) [OF a(2) a(3) a(4)] a(1) Suc.prems assms show ?case
    by (simp add: upto_rec1 [of a] tile_at_flat in_world_def config)
qed

lemma first_solid_row_flat:
  "0 \<le> col \<Longrightarrow> col < 100 \<Longrightarrow> first_solid_row flat_world col [0..WORLD_HEIGHT - 1] = Inr (Some 30)"
  using first_solid_row_flat_from [of col 0] by (simp add: config)

lemma ore_player_update:
  "Player_update flat_world (Player_handle_input no_keys ore_player) = Inr (ore_player\<lparr>vel_y := 0.6\<rparr>)"
  by (simp add: Player_update_def Player_before_vertical_def Player_handle_input_def no_keys_def
      ore_player_def standing_player_def Player_init_def sprite_rect_def move_x_def move_y_def
      Player_resolve_collisions_def corners_def resolve_corner_flat corner_hits_flat in_world_def
      cooldown_tick_def rect_ops py_int_def config Let_def)

lemma new_boss_update:
  "rect p = rect standing_player \<Longrightarrow>
   Boss_update flat_world p (Boss_init 160 960) 1 =
     Inr ((Boss_init 160 960)\<lparr>rect := \<lparr>rect_x = 98, rect_y = 832, rect_w = 128, rect_h = 128\<rparr>,
            vel_x := 2.25, vel_y := 0.6\<rparr>)"
  by (simp add: Boss_update_def Boss_before_vertical_def Boss_init_def
      standing_player_rect sprite_rect_def move_x_def move_y_def Boss_resolve_collisions_def
      keep_within_bounds_def corners_def resolve_corner_flat corner_hits_flat in_world_def
      cooldown_tick_def rect_ops py_int_def config)

lemma ore_player_fields:
  "rect ore_player = rect standing_player" "inventory ore_player Ore = 10"
  "health ore_player = 100" "hurt_cooldown ore_player = 0" "vel_x ore_player = 0"
  by (simp_all add: ore_player_def standing_player_def Player_init_def)

lemma quiet_player_phase:
  "player_phase no_keys ready_game =
     Inr (ready_game\<lparr>g_player := ore_player\<lparr>vel_y := 0.6\<rparr>, g_camera := Some (0, 666)\<rparr>)"
  by (simp add: player_phase_def ready_game_def ore_player_update ore_player_fields
      standing_player_rect centerx_def centery_def config)

lemma day_at_one: "\<not> is_night (brightness 1)"
  by (simp add: is_night_def brightness_def config)

lemma quiet_frame: "frame quiet_input ready_game = Inr spawned_game"
proof -
  let ?g2 = "ready_game\<lparr>g_player := ore_player\<lparr>vel_y := 0.6\<rparr>, g_camera := Some (0, 666)\<rparr>"
  let ?g3 = "?g2\<lparr>g_time_of_day := 1\<rparr>"
  let ?g4 = "?g3\<lparr>g_boss := Some (Boss_init 160 960), g_boss_spawned := True,
                g_show_story := True, g_story_timer := 600\<rparr>"
  have s1: "handle_events (events quiet_input) ready_game = Inr ready_game"
    by (simp add: quiet_input_def)
  have s2: "player_phase (pressed quiet_input) ready_game = Inr ?g2"
    by (simp add: quiet_input_def quiet_player_phase)
  have c: "clock_phase ?g2 = ?g3"
    by (simp add: clock_phase_def ready_game_def config)
  have s3: "enemy_spawn_phase quiet_input ?g3 = Inr ?g3"
    by (simp add: enemy_spawn_phase_def day_at_one ready_game_def)
  have s4: "boss_spawn_phase ?g3 = Inr ?g4"
    by (simp add: boss_spawn_phase_def ready_game_def ore_player_fields standing_player_rect
        centerx_def first_solid_row_flat_from Let_def config)
  have s5: "enemies_phase quiet_input ?g4 = Inr ?g4"
    by (simp add: enemies_phase_def ready_game_def)
  let ?b1 = "(Boss_init 160 960)
                 \<lparr>rect := \<lparr>rect_x = 98, rect_y = 832, rect_w = 128, rect_h = 128\<rparr>,
                  vel_x := 2.25, vel_y := 0.6\<rparr>"
  have bu: "Boss_update flat_world (ore_player\<lparr>vel_y := 0.6\<rparr>) (Boss_init 160 960)
      (rand_boss_jump quiet_input) = Inr ?b1"
    by (simp add: new_boss_update ore_player_fields quiet_input_def)
  have ct: "contact 20 4 ?b1 (ore_player\<lparr>vel_y := 0.6\<rparr>) =
      ore_player\<lparr>vel_x := - 4, vel_y := 0.6, health := 80, hurt_cooldown := 60\<rparr>"
    by (simp add: contact_def colliderect_def ore_player_fields standing_player_rect centerx_def
        Let_def)
  have hb: "\<not> health ?b1 \<le> 0"
    by (simp add: Boss_init_def)
  have s6: "boss_phase quiet_input ?g4 = Inr (?g4
      \<lparr>g_boss := Some ?b1,
       g_player := ore_player\<lparr>vel_x := - 4, vel_y := 0.6, health := 80, hurt_cooldown := 60\<rparr>\<rparr>)"
    using hb bu ct by (simp add: boss_phase_def ready_game_def Let_def)
  show ?thesis
    unfolding frame_def s1 s2 sum.case c s3 s4 s5 s6
    by (simp add: story_phase_def game_over_phase_def spawned_game_def ready_game_def)
qed

text \<open>
  Claim C2.  For every run of the main loop, from any state and for any inputs: the boss is
  created in at most one frame, and the number of active bosses goes from 0 to 1 in at most
  one frame and never exceeds 1; once the boss-spawned flag is set it stays set in every later
  state, and then the boss is never created or activated again, whatever the ore count and
  whether or not the boss is defeated; and a frame in which the number of active bosses goes
  from 0 to 1 starts with the flag unset and ends with the flag set and with at least
  \<open>BOSS_SPAWN_ORE_COUNT\<close> ore in the player's inventory.
\<close>

theorem boss_created_at_most_once:
  "boss_creations (run_game_loop inps g) \<le> 1
   \<and> boss_activations (run_game_loop inps g) \<le> 1
   \<and> list_all (\<lambda>g'. active_bosses g' \<le> 1) (run_game_loop inps g)
   \<and> (g_boss_spawned g \<longrightarrow>
        list_all g_boss_spawned (run_game_loop inps g)
        \<and> boss_creations (run_game_loop inps g) = 0
        \<and> boss_activations (run_game_loop inps g) = 0)
   \<and> (frame inp g = Inr g' \<and> active_bosses g = 0 \<and> active_bosses g' = 1 \<longrightarrow>
        \<not> g_boss_spawned g \<and> g_boss_spawned g'
        \<and> inventory (g_player g') Ore \<ge> BOSS_SPAWN_ORE_COUNT)"
proof (intro conjI impI)
  show "boss_creations (run_game_loop inps g) \<le> 1"
    by (rule boss_creations_le)
  with boss_activations_le_creations [of inps g]
  show "boss_activations (run_game_loop inps g) \<le> 1"
    by simp
  show "list_all (\<lambda>g'. active_bosses g' \<le> 1) (run_game_loop inps g)"
    using active_bosses_le by (auto simp add: list_all_iff)
next
  assume s: "g_boss_spawned g"
  from run_game_loop_spawned [OF s, of inps]
  show "list_all g_boss_spawned (run_game_loop inps g)"
    and c: "boss_creations (run_game_loop inps g) = 0"
    by simp_all
  with boss_activations_le_creations [of inps g]
  show "boss_activations (run_game_loop inps g) = 0"
    by simp
next
  assume "frame inp g = Inr g' \<and> active_bosses g = 0 \<and> active_bosses g' = 1"
  then have a: "frame inp g = Inr g'" "active_bosses g = 0" "active_bosses g' = 1"
    by simp_all
  from frame_activation [OF a]
  show "\<not> g_boss_spawned g" "g_boss_spawned g'"
    "inventory (g_player g') Ore \<ge> BOSS_SPAWN_ORE_COUNT"
    by simp_all
qed

text \<open>The player with ten ore: the first frame creates the boss, and no later frame does.\<close>

theorem boss_created_at_most_once_witness:
  "frame quiet_input ready_game = Inr spawned_game
   \<and> active_bosses ready_game = 0 \<and> active_bosses spawned_game = 1
   \<and> \<not> g_boss_spawned ready_game \<and> g_boss_spawned spawned_game
   \<and> inventory (g_player spawned_game) Ore \<ge> BOSS_SPAWN_ORE_COUNT
   \<and> boss_creations (run_game_loop [quiet_input, quiet_input] ready_game) \<le> 1
   \<and> boss_activations (run_game_loop [quiet_input, quiet_input] ready_game) \<le> 1
   \<and> list_all g_boss_spawned (run_game_loop [quiet_input] spawned_game)
   \<and> boss_creations (run_game_loop [quiet_input] spawned_game) = 0
   \<and> boss_activations (run_game_loop [quiet_input] spawned_game) = 0"
proof -
  have a0: "active_bosses ready_game = 0"
    by (simp add: active_bosses_def ready_game_def)
  have a1: "active_bosses spawned_game = 1"
    by (simp add: active_bosses_def spawned_game_def ready_game_def)
  have s1: "g_boss_spawned spawned_game"
    by (simp add: spawned_game_def)
  from boss_created_at_most_once [of "[quiet_input, quiet_input]" ready_game quiet_input spawned_game]
    boss_created_at_most_once [of "[quiet_input]" spawned_game quiet_input spawned_game]
    quiet_frame a0 a1 s1
  show ?thesis by blast
qed

section \<open>Generated terrain\<close>

lemma rectangular_row:
  "rectangular grid height width \<Longrightarrow> 0 \<le> y \<Longrightarrow> y < height \<Longrightarrow>
   int (length (grid ! nat y)) = width"
  by (simp add: rectangular_def list_all_length nat_less_iff)

lemma set_tile_rectangular:
  assumes "rectangular grid height width" "0 \<le> y" "y < height" "0 \<le> x" "x < width"
  shows "set_tile grid y x v = Inr (grid[nat y := (grid ! nat y)[nat x := v]])"
    and "rectangular (grid[nat y := (grid ! nat y)[nat x := v]]) height width"
proof -
  from assms have len: "y < int (length grid)" by (simp add: rectangular_def)
  from rectangular_row [OF assms(1-3)] assms have row: "x < int (length (grid ! nat y))" by simp
  from assms(2) assms(4) len row
  show "set_tile grid y x v = Inr (grid[nat y := (grid ! nat y)[nat x := v]])"
    by (simp add: set_tile_def py_get_def py_set_def py_index_def)
  from assms(2) len have "nat y < length grid" by simp
  with assms(1) rectangular_row [OF assms(1-3)]
  show "rectangular (grid[nat y := (grid ! nat y)[nat x := v]]) height width"
    by (auto simp add: rectangular_def list_all_length nth_list_update)
qed

lemma tile_at_rectangular:
  assumes "rectangular grid height width" "0 \<le> y" "y < height" "0 \<le> x" "x < width"
  shows "tile_at grid y x = Inr (grid ! nat y ! nat x)"
proof -
  from assms have len: "y < int (length grid)" by (simp add: rectangular_def)
  from rectangular_row [OF assms(1-3)] assms have row: "x < int (length (grid ! nat y))" by simp
  from assms(2) assms(4) len row show ?thesis
    by (simp add: tile_at_def py_get_def py_index_def)
qed

lemma update_cell:
  "i < length g \<Longrightarrow> j < length (g ! i) \<Longrightarrow>
   g[a := (g ! a)[b := v]] ! i ! j = (if i = a \<and> j = b then v else g ! i ! j)"
  by (cases "i = a") (simp_all add: nth_list_update)

lemma column_loop_fills:
  "rectangular grid height width \<Longrightarrow> 0 \<le> y \<Longrightarrow> 0 \<le> x \<Longrightarrow> x < width \<Longrightarrow>
    \<exists>grid'. column_loop ore_x ch height x y grid = Inr grid' \<and> rectangular grid' height width
      \<and> (\<forall>r c. 0 \<le> r \<and> r < height \<and> 0 \<le> c \<and> c < width \<longrightarrow>
            grid' ! nat r ! nat c =
              (if c = x \<and> y \<le> r then tile_for ore_x ch r else grid ! nat r ! nat c))"
proof (induction ore_x ch height x y grid rule: column_loop.induct)
  case (1 ore_x ch height x y grid)
  show ?case
  proof (cases "y < height")
    case False
    with "1.prems" show ?thesis
      by (subst column_loop.simps) auto
  next
    case True
    let ?v = "if y = ch then 2 else if y < ch + 5 then 1 else if ore_x y then 4 else 3"
    let ?g1 = "grid[nat y := (grid ! nat y)[nat x := ?v]]"
    note st = set_tile_rectangular [OF "1.prems"(1) "1.prems"(2) True "1.prems"(3) "1.prems"(4),
        of ?v]
    from "1.prems"(2) have "0 \<le> y + 1" by simp
    from "1.IH" [OF True st(1) st(2) this "1.prems"(3) "1.prems"(4)]
    obtain grid' where
      run: "column_loop ore_x ch height x (y + 1) ?g1 = Inr grid'"
      and rect: "rectangular grid' height width"
      and cells: "\<forall>r c. 0 \<le> r \<and> r < height \<and> 0 \<le> c \<and> c < width \<longrightarrow>
            grid' ! nat r ! nat c =
              (if c = x \<and> y + 1 \<le> r then tile_for ore_x ch r else ?g1 ! nat r ! nat c)"
      by auto
    have "column_loop ore_x ch height x y grid = Inr grid'"
      using True st(1) run by (subst column_loop.simps) simp
    moreover have "\<forall>r c. 0 \<le> r \<and> r < height \<and> 0 \<le> c \<and> c < width \<longrightarrow>
            grid' ! nat r ! nat c =
              (if c = x \<and> y \<le> r then tile_for ore_x ch r else grid ! nat r ! nat c)"
    proof (intro allI impI)
      fix r c
      assume rc: "0 \<le> r \<and> r < height \<and> 0 \<le> c \<and> c < width"
      with "1.prems"(1) have lr: "nat r < length grid"
        by (auto simp add: rectangular_def)
      from rc rectangular_row [OF "1.prems"(1), of r] have lc: "nat c < length (grid ! nat r)"
        by auto
      from rc "1.prems" have eqs: "(nat r = nat y) = (r = y)" "(nat c = nat x) = (c = x)"
        by auto
      have g1: "?g1 ! nat r ! nat c = (if r = y \<and> c = x then ?v else grid ! nat r ! nat c)"
        by (simp only: update_cell [OF lr lc] eqs)
      from cells rc have "grid' ! nat r ! nat c =
              (if c = x \<and> y + 1 \<le> r then tile_for ore_x ch r else ?g1 ! nat r ! nat c)"
        by blast
      also have "\<dots> = (if c = x \<and> y \<le> r then tile_for ore_x ch r else grid ! nat r ! nat c)"
      proof (cases "r = y \<and> c = x")
        case True
        show ?thesis
          unfolding g1 using True by (simp add: tile_for_def)
      next
        case False
        then have cond: "(c = x \<and> y + 1 \<le> r) = (c = x \<and> y \<le> r)" by auto
        show ?thesis
          unfolding g1 using False cond by simp
      qed
      finally show "grid' ! nat r ! nat c =
              (if c = x \<and> y \<le> r then tile_for ore_x ch r else grid ! nat r ! nat c)" .
    qed
    ultimately show ?thesis using rect by blast
  qed
qed

lemma columns_loop_fills:
  "rectangular grid height width \<Longrightarrow> 8 \<le> height \<Longrightarrow> 0 \<le> x \<Longrightarrow>
   \<exists>grid'. columns_loop choice ore width height x prev grid = Inr grid'
     \<and> rectangular grid' height width
     \<and> (\<forall>c. 0 \<le> c \<and> c < width \<longrightarrow>
          (if c < x then \<forall>r. 0 \<le> r \<and> r < height \<longrightarrow> grid' ! nat r ! nat c = grid ! nat r ! nat c
           else \<exists>s. height div 2 - 4 \<le> s \<and> s \<le> height div 2 + 4 \<and>
                  (\<forall>r. 0 \<le> r \<and> r < height \<longrightarrow>
                     grid' ! nat r ! nat c =
                       (if s \<le> r then tile_for (ore c) s r else grid ! nat r ! nat c))))"
proof (induction choice ore width height x prev grid rule: columns_loop.induct)
  case (1 choice ore width height x prev grid)
  show ?case
  proof (cases "x < width")
    case False
    with "1.prems"(1) show ?thesis
      by (subst columns_loop.simps) auto
  next
    case True
    define ch where "ch = max (height div 2 - 4) (min (height div 2 + 4) (prev + choice x))"
    from "1.prems"(2) have ch: "0 \<le> ch" "height div 2 - 4 \<le> ch" "ch \<le> height div 2 + 4"
      by (auto simp add: ch_def)
    from column_loop_fills [OF "1.prems"(1) ch(1) "1.prems"(3) True, of "ore x" ch]
    obtain grid1 where
      col: "column_loop (ore x) ch height x ch grid = Inr grid1"
      and rect1: "rectangular grid1 height width"
      and cells1: "\<forall>r c. 0 \<le> r \<and> r < height \<and> 0 \<le> c \<and> c < width \<longrightarrow>
            grid1 ! nat r ! nat c =
              (if c = x \<and> ch \<le> r then tile_for (ore x) ch r else grid ! nat r ! nat c)"
      by blast
    from "1.prems"(3) have x1: "0 \<le> x + 1" by simp
    from "1.IH" [OF True refl refl ch_def [symmetric, THEN sym] col rect1 "1.prems"(2) x1]
    obtain grid' where
      run: "columns_loop choice ore width height (x + 1) ch grid1 = Inr grid'"
      and rect': "rectangular grid' height width"
      and cells': "\<forall>c. 0 \<le> c \<and> c < width \<longrightarrow>
          (if c < x + 1
           then \<forall>r. 0 \<le> r \<and> r < height \<longrightarrow> grid' ! nat r ! nat c = grid1 ! nat r ! nat c
           else \<exists>s. height div 2 - 4 \<le> s \<and> s \<le> height div 2 + 4 \<and>
                  (\<forall>r. 0 \<le> r \<and> r < height \<longrightarrow>
                     grid' ! nat r ! nat c =
                       (if s \<le> r then tile_for (ore c) s r else grid1 ! nat r ! nat c)))"
      by blast
    have res: "columns_loop choice ore width height x prev grid = Inr grid'"
      using True col run by (subst columns_loop.simps) (simp add: Let_def ch_def)
    have "\<forall>c. 0 \<le> c \<and> c < width \<longrightarrow>
          (if c < x then \<forall>r. 0 \<le> r \<and> r < height \<longrightarrow> grid' ! nat r ! nat c = grid ! nat r ! nat c
           else \<exists>s. height div 2 - 4 \<le> s \<and> s \<le> height div 2 + 4 \<and>
                  (\<forall>r. 0 \<le> r \<and> r < height \<longrightarrow>
                     grid' ! nat r ! nat c =
                       (if s \<le> r then tile_for (ore c) s r else grid ! nat r ! nat c)))"
    proof (intro allI impI)
      fix c
      assume c: "0 \<le> c \<and> c < width"
      consider "c < x" | "c = x" | "x < c" by linarith
      then show "if c < x
           then \<forall>r. 0 \<le> r \<and> r < height \<longrightarrow> grid' ! nat r ! nat c = grid ! nat r ! nat c
           else \<exists>s. height div 2 - 4 \<le> s \<and> s \<le> height div 2 + 4 \<and>
                  (\<forall>r. 0 \<le> r \<and> r < height \<longrightarrow>
                     grid' ! nat r ! nat c =
                       (if s \<le> r then tile_for (ore c) s r else grid ! nat r ! nat c))"
      proof cases
        case 1
        with cells' cells1 c show ?thesis by simp
      next
        case 2
        with cells' c have "\<forall>r. 0 \<le> r \<and> r < height \<longrightarrow> grid' ! nat r ! nat c = grid1 ! nat r ! nat c"
          by simp
        with cells1 c 2 have "\<forall>r. 0 \<le> r \<and> r < height \<longrightarrow>
                     grid' ! nat r ! nat c =
                       (if ch \<le> r then tile_for (ore c) ch r else grid ! nat r ! nat c)"
          by simp
        with ch 2 show ?thesis by auto
      next
        case 3
        then have "\<not> c < x + 1" by simp
        with cells' c have "\<exists>s. height div 2 - 4 \<le> s \<and> s \<le> height div 2 + 4 \<and>
                  (\<forall>r. 0 \<le> r \<and> r < height \<longrightarrow>
                     grid' ! nat r ! nat c =
                       (if s \<le> r then tile_for (ore c) s r else grid1 ! nat r ! nat c))"
          by (metis (no_types, lifting))
        then obtain s where s: "height div 2 - 4 \<le> s" "s \<le> height div 2 + 4"
          "\<forall>r. 0 \<le> r \<and> r < height \<longrightarrow>
                     grid' ! nat r ! nat c =
                       (if s \<le> r then tile_for (ore c) s r else grid1 ! nat r ! nat c)"
          by blast
        from cells1 c 3 have "\<forall>r. 0 \<le> r \<and> r < height \<longrightarrow> grid1 ! nat r ! nat c = grid ! nat r ! nat c"
          by simp
        with s(3) have "\<forall>r. 0 \<le> r \<and> r < height \<longrightarrow>
                     grid' ! nat r ! nat c =
                       (if s \<le> r then tile_for (ore c) s r else grid ! nat r ! nat c)"
          by simp
        with s(1) s(2) 3 show ?thesis by auto
      qed
    qed
    with res rect' show ?thesis by blast
  qed
qed

lemma rectangular_replicate:
  "0 \<le> height \<Longrightarrow> 0 \<le> width \<Longrightarrow>
   rectangular (replicate (nat height) (replicate (nat width) 0)) height width"
  by (simp add: rectangular_def list_all_iff)

lemma steep_world_generated:
  "generate_world 4 16 (\<lambda>_. 1) (\<lambda>_ _. False) = Inr steep_world"
  by (simp add: generate_world_def Let_def set_tile_def py_get_def py_set_def py_index_def
      steep_world_def eval_nat_numeral)

lemma steep_world_air:
  "list_all (\<lambda>y. tile_at steep_world y 3 = Inr 0) [0..11]"
  by code_simp

text \<open>
  Claim C3, as stated, fails for small heights: the surface row may be as low as
  \<open>height // 2 + 4\<close>, and the four rows of dirt below it need not fit in the grid.  With
  4 columns, 16 rows and every random step \<open>+1\<close>, the last column has its grass at row 12
  and only three rows of dirt below it, down to the bottom row 15.
\<close>

theorem shallow_world_counterexample:
  "generate_world 4 16 (\<lambda>_. 1) (\<lambda>_ _. False) = Inr steep_world
   \<and> tile_at steep_world 12 3 = Inr 2 \<and> tile_at steep_world 15 3 = Inr 1
   \<and> \<not> (\<exists>s. layered_column steep_world 16 3 s)"
proof -
  have "\<not> layered_column steep_world 16 3 s" for s
  proof
    assume l: "layered_column steep_world 16 3 s"
    then have s: "0 \<le> s" "s < 12" by (simp_all add: layered_column_def)
    with steep_world_air have a: "tile_at steep_world s 3 = Inr 0"
      by (simp add: list_all_iff)
    from l have "\<forall>y\<in>set [0..16 - 1].
        case tile_at steep_world y 3 of Inl e \<Rightarrow> False
        | Inr t \<Rightarrow> if y < s then t = 0 else if y = s then t = 2
                   else if y \<le> s + 4 then t = 1 else t = 3 \<or> t = 4"
      by (simp add: layered_column_def list_all_iff)
    moreover from s have "s \<in> set [0..16 - 1]" by simp
    ultimately have "case tile_at steep_world s 3 of Inl e \<Rightarrow> False
        | Inr t \<Rightarrow> if s < s then t = 0 else if s = s then t = 2
                   else if s \<le> s + 4 then t = 1 else t = 3 \<or> t = 4"
      by (rule bspec)
    with a show False by simp
  qed
  moreover have "tile_at steep_world 12 3 = Inr 2" "tile_at steep_world 15 3 = Inr 1"
    by (simp_all add: steep_world_def tile_at_def py_get_def py_index_def eval_nat_numeral)
  ultimately show ?thesis using steep_world_generated by blast
qed

text \<open>
  Claim C3, amended.  For every width, every height of at least 17 (the game uses 60) and
  every outcome of the random draws, \<open>generate_world(width, height)\<close> returns a grid of
  \<open>height\<close> rows of \<open>width\<close> tiles, and in every column of it, going downward from the
  column's surface row: grass at the surface row, then dirt for exactly 4 rows, then only
  stone or ore down to the bottom row; every row above the surface row is air.
\<close>

theorem generated_columns_are_layered:
  assumes "17 \<le> height" "0 \<le> x" "x < width"
  shows "\<exists>grid. generate_world width height choice ore = Inr grid
     \<and> rectangular grid height width \<and> (\<exists>s. layered_column grid height x s)"
proof -
  let ?g0 = "replicate (nat height) (replicate (nat width) 0)"
  from assms have r0: "rectangular ?g0 height width"
    by (intro rectangular_replicate) simp_all
  from assms have h8: "8 \<le> height" by simp
  from columns_loop_fills [OF r0 h8, of 0 choice ore "height div 2"]
  obtain grid where
    run: "columns_loop choice ore width height 0 (height div 2) ?g0 = Inr grid"
    and rect: "rectangular grid height width"
    and cells: "\<forall>c. 0 \<le> c \<and> c < width \<longrightarrow>
          (if c < 0 then \<forall>r. 0 \<le> r \<and> r < height \<longrightarrow> grid ! nat r ! nat c = ?g0 ! nat r ! nat c
           else \<exists>s. height div 2 - 4 \<le> s \<and> s \<le> height div 2 + 4 \<and>
                  (\<forall>r. 0 \<le> r \<and> r < height \<longrightarrow>
                     grid ! nat r ! nat c =
                       (if s \<le> r then tile_for (ore c) s r else ?g0 ! nat r ! nat c)))"
    by auto
  from assms have "\<not> x < 0" by simp
  with cells assms have "\<exists>s. height div 2 - 4 \<le> s \<and> s \<le> height div 2 + 4 \<and>
                  (\<forall>r. 0 \<le> r \<and> r < height \<longrightarrow>
                     grid ! nat r ! nat x =
                       (if s \<le> r then tile_for (ore x) s r else ?g0 ! nat r ! nat x))"
    by (metis (no_types, lifting))
  then obtain s where s: "height div 2 - 4 \<le> s" "s \<le> height div 2 + 4"
    and col: "\<forall>r. 0 \<le> r \<and> r < height \<longrightarrow>
                     grid ! nat r ! nat x =
                       (if s \<le> r then tile_for (ore x) s r else ?g0 ! nat r ! nat x)"
    by blast
  from assms s have bounds: "0 \<le> s" "s + 4 < height" by simp_all
  have "list_all
        (\<lambda>y. case tile_at grid y x of
               Inl e \<Rightarrow> False
             | Inr t \<Rightarrow> if y < s then t = 0 else if y = s then t = 2
                        else if y \<le> s + 4 then t = 1 else t = 3 \<or> t = 4)
        [0..height - 1]"
    unfolding list_all_iff
  proof
    fix y
    assume "y \<in> set [0..height - 1]"
    then have y: "0 \<le> y" "y < height" by simp_all
    have "nat y < nat height" "nat x < nat width"
      using y assms by simp_all
    then have z: "?g0 ! nat y ! nat x = 0" by simp
    from col y have g: "grid ! nat y ! nat x =
        (if s \<le> y then tile_for (ore x) s y else ?g0 ! nat y ! nat x)"
      by blast
    show "case tile_at grid y x of
               Inl e \<Rightarrow> False
             | Inr t \<Rightarrow> if y < s then t = 0 else if y = s then t = 2
                        else if y \<le> s + 4 then t = 1 else t = 3 \<or> t = 4"
      unfolding tile_at_rectangular [OF rect y assms(2) assms(3)] g z
      by (simp add: tile_for_def)
  qed
  with bounds have "layered_column grid height x s"
    by (simp add: layered_column_def)
  with run rect show ?thesis
    by (auto simp add: generate_world_def Let_def)
qed

text \<open>Two columns, 17 rows, every random step \<open>+1\<close>.\<close>

theorem generated_columns_are_layered_witness:
  "(17::int) \<le> 17 \<and> (0::int) \<le> 1 \<and> (1::int) < 2
   \<and> (\<exists>grid. generate_world 2 17 (\<lambda>_. 1) (\<lambda>_ _. False) = Inr grid
        \<and> rectangular grid 17 2 \<and> (\<exists>s. layered_column grid 17 1 s))"
  using generated_columns_are_layered [of 17 1 2 "\<lambda>_. 1" "\<lambda>_ _. False"] by simp

section \<open>The day/night clock\<close>

text \<open>
  At the two frame counts below the floating-point computation is exact
  (\<open>0 / 1200 = 0.0\<close>, \<open>600 / 1200 = 0.5\<close>, and every intermediate value is a multiple of
  one half), so the real numbers are the values the program computes.
\<close>

lemma brightness_values:
  "brightness 0 = 1 / 2" "brightness (DAY_LENGTH div 2) = 1"
  by (simp_all add: brightness_def config)

text \<open>On the whole range of the counter the brightness is at least one half: with this
  formula the test \<open>brightness < 0.5\<close> of line 610 never succeeds.\<close>

lemma never_night:
  assumes "0 \<le> time_of_day" "time_of_day \<le> DAY_LENGTH"
  shows "\<not> is_night (brightness time_of_day)"
proof -
  define t where "t = real_of_int time_of_day / real_of_int DAY_LENGTH"
  from assms have "0 \<le> t" "t \<le> 1"
    by (simp_all add: t_def config)
  then have "\<bar>1 / 2 - t\<bar> \<le> 1 / 2" by (auto simp add: abs_if)
  then have "0.5 \<le> 0.5 + 0.5 * (1 - \<bar>0.5 - t\<bar> * 2)" by simp
  then show ?thesis
    by (simp add: is_night_def brightness_def Let_def t_def)
qed

text \<open>So the block "Enemy spawning at night" (lines 609-626) never runs: at every value of
  the counter it leaves the game as it is.\<close>

lemma spawn_dead_code:
  assumes "0 \<le> g_time_of_day g" "g_time_of_day g \<le> DAY_LENGTH"
  shows "enemy_spawn_phase inp g = Inr g"
  using never_night [OF assms] by (simp add: enemy_spawn_phase_def)

text \<open>
  Claim C1.  The claim asks for full day at \<open>time_of_day = 0\<close> (brightness 1.0, no spawning)
  and full night at \<open>time_of_day = DAY_LENGTH / 2\<close> (brightness 0.0, spawning eligible).  The
  code does not do this: at \<open>time_of_day = DAY_LENGTH / 2\<close> it computes brightness 1.0, it is
  not night, and the spawning block leaves the game unchanged; at \<open>time_of_day = 0\<close> it
  computes brightness 0.5.  By \<open>never_night\<close> there is no night at any time, although the
  module's documentation promises zombies during the night (lines 15-17) and the block is
  commented "Enemy spawning at night".  The theorem records what the code computes at the
  failing input.
\<close>

theorem no_night_at_half_day:
  "brightness (DAY_LENGTH div 2) = 1
   \<and> \<not> is_night (brightness (DAY_LENGTH div 2))
   \<and> enemy_spawn_phase inp (g\<lparr>g_time_of_day := DAY_LENGTH div 2\<rparr>)
       = Inr (g\<lparr>g_time_of_day := DAY_LENGTH div 2\<rparr>)
   \<and> brightness 0 = 0.5"
  by (simp add: brightness_values is_night_def enemy_spawn_phase_def)

end
